theory Spec2Isabelle
  imports
    Main
    "HOL-Library.Word"
    "HOL-Library.AList"
    "HOL-Library.Multiset"
    "HOL-Library.Char_ord"
    "HOL-Library.List_Lexorder"
    "HOL-Library.Code_Target_Numeral"
begin

unbundle bit_operations_syntax

section \<open>dfo: serialising a directory tree to a stream of blobs and back\<close>

text \<open>
  This theory is a shallow embedding of \<^verbatim>\<open>bin/dfo.py\<close>: the packer
  (\<^verbatim>\<open>_PackTree\<close>, \<^verbatim>\<open>PackTree\<close>), the \<^verbatim>\<open>Verifier\<close> class and the
  unpacker (\<^verbatim>\<open>_UnpackTree\<close>).

  Python 2 byte strings are \<^typ>\<open>string\<close> (a list of 8-bit characters), Python integers
  are \<^typ>\<open>int\<close> or \<^typ>\<open>nat\<close>. Every \<^verbatim>\<open>raise\<close> of the source is a value of
  the type \<open>error\<close> below; a function that touches the file system returns the file
  system together with its result, so that the state at the moment of an exception is
  part of what is modelled. Names that Isabelle does not accept are changed as little as
  possible: \<^verbatim>\<open>_PackTree\<close> is \<open>PackTree_rec\<close>, \<^verbatim>\<open>_UnpackTree\<close> is
  \<open>UnpackTree\<close>, \<^verbatim>\<open>_MakeOneDir\<close> is \<open>MakeOneDir\<close>, \<^verbatim>\<open>_WriteChunk\<close> and
  \<^verbatim>\<open>_WritePair\<close> are \<open>WriteChunk\<close> and \<open>WritePair\<close>. Logging to standard error
  (\<^verbatim>\<open>log\<close>) has no effect on any result and is left out.
\<close>

subsection \<open>Characters and string helpers of Python\<close>

abbreviation LF :: char where "LF \<equiv> CHR 0x0A"
abbreviation CR :: char where "CR \<equiv> CHR 0x0D"
abbreviation SP :: char where "SP \<equiv> CHR 0x20"
abbreviation NUL :: char where "NUL \<equiv> CHR 0x00"

text \<open>
  \<^verbatim>\<open>s.split(' ', n)\<close>: split at the first \<open>n\<close> single spaces, from the left. The
  result has between \<open>1\<close> and \<open>n + 1\<close> fields.
\<close>

fun py_split :: "nat \<Rightarrow> string \<Rightarrow> string list" where
  "py_split 0 s = [s]"
| "py_split (Suc n) s =
     (if SP \<in> set s
      then takeWhile (\<lambda>c. c \<noteq> SP) s # py_split n (tl (dropWhile (\<lambda>c. c \<noteq> SP) s))
      else [s])"

text \<open>
  \<^verbatim>\<open>s.splitlines()\<close> on a Python 2 byte string: a line ends at \<^verbatim>\<open>\n\<close>, at
  \<^verbatim>\<open>\r\<close> or at \<^verbatim>\<open>\r\n\<close>; the line ends are dropped, and there is no empty last
  line. The first argument is the line read so far, reversed.
\<close>

fun splitlines_from :: "string \<Rightarrow> string \<Rightarrow> string list" where
  "splitlines_from cur [] = (if cur = [] then [] else [rev cur])"
| "splitlines_from cur (c # cs) =
     (if c = LF then rev cur # splitlines_from [] cs
      else if c = CR then
        (case cs of
           [] \<Rightarrow> [rev cur]
         | d # ds \<Rightarrow> if d = LF then rev cur # splitlines_from [] ds
                    else rev cur # splitlines_from [] cs)
      else splitlines_from (c # cur) cs)"

definition splitlines :: "string \<Rightarrow> string list" where
  "splitlines s = splitlines_from [] s"

subsection \<open>SHA-1 (\<^verbatim>\<open>hashlib.sha1\<close>)\<close>

text \<open>
  The digest of the standard library, following FIPS 180: padding to a multiple of 64
  bytes, big-endian 32-bit words, the 80-word message schedule and 80 rounds per block.
  \<open>sha1_hexdigest s\<close> is \<^verbatim>\<open>hashlib.sha1(s).hexdigest()\<close>: 40 lowercase hexadecimal
  digits. A \<^verbatim>\<open>sha1\<close> object that is fed with \<^verbatim>\<open>update\<close> is modelled by the bytes
  it has been fed so far.
\<close>

definition sha1_pad :: "8 word list \<Rightarrow> 8 word list" where
  "sha1_pad m =
     m @ [0x80] @ replicate ((64 - (length m + 9) mod 64) mod 64) 0
       @ map (\<lambda>i. ucast (drop_bit (8 * i) (of_nat (8 * length m) :: 64 word)))
             [7, 6, 5, 4, 3, 2, 1, 0]"

fun be_words :: "8 word list \<Rightarrow> 32 word list" where
  "be_words (a # b # c # d # bs) =
     (push_bit 24 (ucast a) OR push_bit 16 (ucast b) OR push_bit 8 (ucast c) OR ucast d)
       # be_words bs"
| "be_words _ = []"

fun sha1_schedule :: "nat \<Rightarrow> 32 word list \<Rightarrow> 32 word list" where
  "sha1_schedule 0 w = w"
| "sha1_schedule (Suc n) w =
     sha1_schedule n
       (w @ [word_rotl 1 (w ! (length w - 3) XOR w ! (length w - 8)
                          XOR w ! (length w - 14) XOR w ! (length w - 16))])"

definition sha1_f :: "nat \<Rightarrow> 32 word \<Rightarrow> 32 word \<Rightarrow> 32 word \<Rightarrow> 32 word" where
  "sha1_f t b c d =
     (if t < 20 then (b AND c) OR (NOT b AND d)
      else if t < 40 then b XOR c XOR d
      else if t < 60 then (b AND c) OR (b AND d) OR (c AND d)
      else b XOR c XOR d)"

definition sha1_k :: "nat \<Rightarrow> 32 word" where
  "sha1_k t =
     (if t < 20 then 0x5A827999 else if t < 40 then 0x6ED9EBA1
      else if t < 60 then 0x8F1BBCDC else 0xCA62C1D6)"

type_synonym sha1_state = "32 word \<times> 32 word \<times> 32 word \<times> 32 word \<times> 32 word"

fun sha1_round :: "32 word list \<Rightarrow> sha1_state \<Rightarrow> nat \<Rightarrow> sha1_state" where
  "sha1_round w (a, b, c, d, e) t =
     (word_rotl 5 a + sha1_f t b c d + e + sha1_k t + w ! t, a, word_rotl 30 b, c, d)"

fun sha1_block :: "sha1_state \<Rightarrow> 32 word list \<Rightarrow> sha1_state" where
  "sha1_block (h0, h1, h2, h3, h4) ws =
     (case foldl (sha1_round (sha1_schedule 64 ws)) (h0, h1, h2, h3, h4) [0..<80] of
        (a, b, c, d, e) \<Rightarrow> (h0 + a, h1 + b, h2 + c, h3 + d, h4 + e))"

fun sha1_blocks :: "nat \<Rightarrow> sha1_state \<Rightarrow> 32 word list \<Rightarrow> sha1_state" where
  "sha1_blocks 0 h ws = h"
| "sha1_blocks (Suc n) h ws = sha1_blocks n (sha1_block h (take 16 ws)) (drop 16 ws)"

definition hex_digit :: "nat \<Rightarrow> char" where
  "hex_digit n = ''0123456789abcdef'' ! (n mod 16)"

definition hex_word :: "32 word \<Rightarrow> string" where
  "hex_word w = map (\<lambda>i. hex_digit (unat (drop_bit (4 * i) w))) [7, 6, 5, 4, 3, 2, 1, 0]"

definition sha1_hexdigest :: "string \<Rightarrow> string" where
  "sha1_hexdigest s =
     (let ws = be_words (sha1_pad (map (\<lambda>c. of_nat (of_char c)) s))
      in case sha1_blocks (length ws div 16)
                (0x67452301, 0xEFCDAB89, 0x98BADCFE, 0x10325476, 0xC3D2E1F0) ws of
           (h0, h1, h2, h3, h4) \<Rightarrow> concat (map hex_word [h0, h1, h2, h3, h4]))"

subsection \<open>Exceptions\<close>

text \<open>
  The functions modelled here raise \<^verbatim>\<open>RuntimeError\<close> with a message at eleven
  places; each is a constructor of \<open>runtime_error\<close> that carries the values the message is formatted
  from. The other constructors of \<open>error\<close> are the exceptions that the interpreter and
  the \<^verbatim>\<open>os\<close> module raise and the source lets through. \<open>OutsideModel\<close> is not an
  exception: it marks the calls whose effect the model does not describe, which are
  reading a node that is not a regular file, listing a symbolic link, and writing to a
  device, a FIFO or a socket.
\<close>

datatype errno = EEXIST | ENOENT | ENOTDIR | EISDIR | EINVAL | ELOOP

datatype runtime_error =
    CantSerialize string int
  | InvalidDirectoryEntry string string
  | InvalidExecBit string
  | StreamIntegrityError
  | ExpectedHeaderGotEOF
  | ExpectedHeader string
  | InvalidOpRecord string
  | ExpectedContentsGotEOF
  | ErrorMakingSymlink string errno
  | InvalidCommand string
  | ExpectedRootChecksumGotEOF

datatype error =
    RuntimeError runtime_error
  | OSError errno
  | IOError errno
  | TypeError
  | AttributeError
  | IndexError
  | OutsideModel

subsection \<open>File system nodes and \<^verbatim>\<open>stat\<close>\<close>

text \<open>
  A node is a regular file (permission bits, contents), a symbolic link (target), a
  directory (permission bits, entries in the order in which \<^verbatim>\<open>os.listdir\<close> returns
  them) or one of the other kinds of node (FIFO, device, socket). \<open>st_mode\<close> is the
  \<^verbatim>\<open>st_mode\<close> field of \<^verbatim>\<open>os.lstat\<close>: the format bits of the kind together with
  the permission bits. The numbers are those of \<^verbatim>\<open>stat.py\<close>, written in decimal:
  \<^verbatim>\<open>S_IFMT = 0170000\<close>, \<^verbatim>\<open>S_IFREG = 0100000\<close>, \<^verbatim>\<open>S_IFDIR = 040000\<close>,
  \<^verbatim>\<open>S_IFLNK = 0120000\<close>, \<^verbatim>\<open>07777 = 4095\<close>, \<^verbatim>\<open>S_IXUSR = 0100\<close>,
  \<^verbatim>\<open>S_IXGRP = 010\<close>, \<^verbatim>\<open>S_IXOTH = 01\<close>.
\<close>

datatype special = Fifo | CharDevice | BlockDevice | Socket

datatype node =
    File int string
  | Symlink string
  | Dir int "(string \<times> node) list"
  | Special special int

abbreviation (input) S_IFMT :: int where "S_IFMT \<equiv> 61440"
abbreviation (input) S_IFREG :: int where "S_IFREG \<equiv> 32768"
abbreviation (input) S_IFDIR :: int where "S_IFDIR \<equiv> 16384"
abbreviation (input) S_IFLNK :: int where "S_IFLNK \<equiv> 40960"
abbreviation (input) S_IXUSR :: int where "S_IXUSR \<equiv> 64"
abbreviation (input) S_IXGRP :: int where "S_IXGRP \<equiv> 8"
abbreviation (input) S_IXOTH :: int where "S_IXOTH \<equiv> 1"

definition S_IMODE :: "int \<Rightarrow> int" where
  "S_IMODE mode = mode AND 4095"

definition S_ISLNK :: "int \<Rightarrow> bool" where
  "S_ISLNK mode = (mode AND S_IFMT = S_IFLNK)"

definition S_ISREG :: "int \<Rightarrow> bool" where
  "S_ISREG mode = (mode AND S_IFMT = S_IFREG)"

definition S_ISDIR :: "int \<Rightarrow> bool" where
  "S_ISDIR mode = (mode AND S_IFMT = S_IFDIR)"

fun special_fmt :: "special \<Rightarrow> int" where
  "special_fmt Fifo = 4096"
| "special_fmt CharDevice = 8192"
| "special_fmt BlockDevice = 24576"
| "special_fmt Socket = 49152"

fun st_mode :: "node \<Rightarrow> int" where
  "st_mode (File p c) = S_IFREG OR (p AND 4095)"
| "st_mode (Symlink t) = S_IFLNK OR 511"
| "st_mode (Dir p es) = S_IFDIR OR (p AND 4095)"
| "st_mode (Special k p) = special_fmt k OR (p AND 4095)"

text \<open>
  The calls the packer makes on a node of the source tree. The source tree is only read;
  it is taken to be readable (no \<^verbatim>\<open>EACCES\<close>) and unchanged while it is packed, so
  that \<^verbatim>\<open>st_size\<close> is the number of bytes that reading the file returns.
\<close>

fun os_readlink :: "node \<Rightarrow> error + string" where
  "os_readlink (Symlink t) = Inr t"
| "os_readlink _ = Inl (OSError EINVAL)"

fun st_size :: "node \<Rightarrow> nat" where
  "st_size (File p c) = length c"
| "st_size (Symlink t) = length t"
| "st_size _ = 0"

fun open_read :: "node \<Rightarrow> error + string" where
  "open_read (File p c) = Inr c"
| "open_read (Dir p es) = Inl (IOError EISDIR)"
| "open_read _ = Inl OutsideModel"

fun os_listdir :: "node \<Rightarrow> error + (string \<times> node) list" where
  "os_listdir (Dir p es) = Inr es"
| "os_listdir (Symlink t) = Inl OutsideModel"
| "os_listdir _ = Inl (OSError ENOTDIR)"

subsection \<open>The packer\<close>

text \<open>
  Modelled from the spec: \<^verbatim>\<open>tnet.dump_line\<close>, of the module \<^verbatim>\<open>tnet\<close> that is
  not among the sources. The spec takes the framing layer as the abstract operation
  ``write a blob'', and so does the model: the output stream \<^verbatim>\<open>outf\<close> is the list
  of blobs written so far, and \<^verbatim>\<open>outf.write(tnet.dump_line(s))\<close> appends the blob
  \<open>s\<close>. By the comments of the source a blob is framed as its decimal length, a colon,
  its bytes and a newline. For a regular file the source writes this frame by hand,
  \<^verbatim>\<open>'%d:' % file_size\<close>, then the chunks it reads, then the newline: that is one
  blob, whose bytes are the chunks in the order read.
\<close>

abbreviation (input) CHUNK_SIZE :: nat where "CHUNK_SIZE \<equiv> 1024 * 1024"

definition WriteChunk :: "string list \<Rightarrow> string \<Rightarrow> string list" where
  "WriteChunk outf chunk = outf @ [chunk]"

definition WritePair :: "string list \<Rightarrow> string \<Rightarrow> string \<Rightarrow> string list" where
  "WritePair outf cmd name = outf @ [cmd @ '' '' @ name]"

text \<open>
  The \<^verbatim>\<open>while True\<close> loop that streams a regular file: \<open>f\<close> is what is left to read,
  \<open>payload\<close> the bytes written to \<^verbatim>\<open>outf\<close> inside the open frame, \<open>sha1\<close> the
  bytes the digest object has been fed.
\<close>

function read_loop :: "nat \<Rightarrow> string \<Rightarrow> string \<Rightarrow> string \<Rightarrow> string \<times> string" where
  "read_loop chunk_size f payload sha1 =
     (let chunk = take chunk_size f in
      if chunk = [] then (payload, sha1)
      else read_loop chunk_size (drop chunk_size f) (payload @ chunk) (sha1 @ chunk))"
  by pat_completeness auto
termination
  by (relation "measure (\<lambda>(n, f, p, s). length f)") auto

text \<open>
  The manifest line of one entry: \<^verbatim>\<open>'%s %s %s %s' % (p, node_type, checksum, name)\<close>,
  where \<open>p\<close> is \<^verbatim>\<open>'x'\<close> for a regular file whose owner may execute it and
  \<^verbatim>\<open>'-'\<close> otherwise.
\<close>

definition manifest_line :: "int \<Rightarrow> string \<Rightarrow> string \<Rightarrow> string \<Rightarrow> string" where
  "manifest_line mode node_type checksum name =
     (let perms = S_IMODE mode;
          p = (if node_type = ''F'' \<and> perms AND S_IXUSR \<noteq> 0 then ''x'' else ''-'')
      in p @ '' '' @ node_type @ '' '' @ checksum @ '' '' @ name)"

lemma size_map_of_entry:
  "map_of es name = Some nd \<Longrightarrow> size nd < size_list (size_prod (\<lambda>_. 0) size) es"
  by (induction es) (auto split: if_splits)

text \<open>
  \<open>PackTree_rec d outf\<close> is \<^verbatim>\<open>_PackTree(prefix, dir, outf)\<close> where \<open>d\<close> is the node
  at \<^verbatim>\<open>os.path.join(prefix, dir)\<close>; it returns \<^verbatim>\<open>(dir_obj, this_count)\<close> or the
  exception, and the stream as it then is. \<open>pack_entries\<close> is its \<^verbatim>\<open>for name in entries\<close>
  loop, with the loop variables \<^verbatim>\<open>this_dir\<close> and \<^verbatim>\<open>this_count\<close>;
  \<open>map_of es name\<close> is the node that \<^verbatim>\<open>os.lstat(path)\<close> finds. For a regular file
  \<^verbatim>\<open>checksum\<close> is the 40 digits of \<^verbatim>\<open>sha1.hexdigest()\<close>, which is not empty, so
  \<^verbatim>\<open>if not checksum\<close> recomputes the checksum from \<^verbatim>\<open>obj\<close> exactly for links and
  directories.
\<close>

function PackTree_rec :: "node \<Rightarrow> string list \<Rightarrow> (error + string \<times> nat) \<times> string list"
  and pack_entries ::
    "(string \<times> node) list \<Rightarrow> string list \<Rightarrow> string list \<Rightarrow> nat \<Rightarrow> string list
       \<Rightarrow> (error + string \<times> nat) \<times> string list"
where
  "PackTree_rec d outf =
     (case os_listdir d of
        Inl e \<Rightarrow> (Inl e, outf)
      | Inr es \<Rightarrow> pack_entries es (sort (map fst es)) [] 0 outf)"
| "pack_entries es [] this_dir this_count outf =
     (Inr (concat (map (\<lambda>d. d @ [LF]) this_dir), this_count), outf)"
| "pack_entries es (name # names) this_dir this_count outf =
     (case map_of es name of
        None \<Rightarrow> (Inl (OSError ENOENT), outf)
      | Some nd \<Rightarrow>
          let mode = st_mode nd in
          if S_ISLNK mode then
            (case os_readlink nd of
               Inl e \<Rightarrow> (Inl e, outf)
             | Inr obj \<Rightarrow>
                 pack_entries es names
                   (this_dir @ [manifest_line mode ''L'' (sha1_hexdigest obj) name])
                   (this_count + 1)
                   (WriteChunk (WritePair outf ''L'' name) obj))
          else if S_ISREG mode then
            (case open_read nd of
               Inl e \<Rightarrow> (Inl e, WritePair outf ''F'' name)
             | Inr f \<Rightarrow>
                 (case read_loop CHUNK_SIZE f [] [] of
                    (payload, sha1) \<Rightarrow>
                      pack_entries es names
                        (this_dir @ [manifest_line mode ''F'' (sha1_hexdigest sha1) name])
                        (this_count + 1)
                        (WritePair outf ''F'' name @ [payload])))
          else if S_ISDIR mode then
            (case PackTree_rec nd (WriteChunk (WritePair outf ''>'' name) []) of
               (Inl e, outf') \<Rightarrow> (Inl e, outf')
             | (Inr (obj, node_count), outf') \<Rightarrow>
                 pack_entries es names
                   (this_dir @ [manifest_line mode ''D'' (sha1_hexdigest obj) name])
                   (this_count + (node_count + 1))
                   (WriteChunk (WritePair outf' ''<'' name) obj))
          else (Inl (RuntimeError (CantSerialize name mode)), outf))"
  by pat_completeness auto
termination
  by (relation "inv_image (less_than <*lex*> less_than)
        (\<lambda>x. case x of
           Inl (d, outf) \<Rightarrow> (size d, 0)
         | Inr (es, names, rest) \<Rightarrow> (size_list (size_prod (\<lambda>_. 0) size) es, length names))")
     (auto dest: size_map_of_entry elim: os_listdir.elims)

text \<open>
  \<open>PackTree d outf\<close>: the header, the pair that opens the root, the tree, the pair that
  closes the root, and the trailer. It returns what the source logs at the end: the root
  checksum and the node count.
\<close>

definition PackTree :: "node \<Rightarrow> string list \<Rightarrow> (error + string \<times> nat) \<times> string list" where
  "PackTree d outf =
     (case PackTree_rec d (WriteChunk (WritePair (WriteChunk outf ''dfo--'') ''>'' ''.'') []) of
        (Inl e, outf') \<Rightarrow> (Inl e, outf')
      | (Inr (obj, node_count), outf') \<Rightarrow>
          (Inr (sha1_hexdigest obj, node_count),
           WriteChunk (WriteChunk (WritePair outf' ''<'' ''.'') obj) (sha1_hexdigest obj)))"


subsection \<open>The file system the unpacker writes to\<close>

text \<open>
  The unpacker works relative to the process's working directory, which it changes with
  \<^verbatim>\<open>os.chdir\<close>. The model is the tree of the whole file system, seen from the working
  directory: the entries and the permission bits of the working directory, and for every
  directory between it and the root directory a \<open>frame\<close>: the name under which the
  directory below is entered, the permission bits of the enclosing directory and its
  other entries, before and after that name. The outermost directory is the root
  directory \<^verbatim>\<open>/\<close>, which is its own parent. \<open>umask\<close> is the process's file mode
  creation mask.

  The system calls are those of Linux. The process is taken to have the access rights
  for what it does; owners and groups, and limits (name length, disk space) are not
  modelled.
\<close>

datatype frame = Frame string int "(string \<times> node) list" "(string \<times> node) list"

record filesystem =
  entries :: "(string \<times> node) list"
  cwd_mode :: int
  above :: "frame list"
  umask :: int

text \<open>
  Moving in the tree: \<open>up\<close> puts the directory back under its name in the enclosing
  directory, \<open>down\<close> enters the directory found under a name, and \<open>enter\<close> the
  directory that is the \<open>i\<close>-th entry. A path is resolved by such moves; \<open>undo\<close> takes
  them back, last move first, to return to the working directory after a call. The calls
  below change an entry in place or add one at the end of a listing, so the position of a
  directory in the enclosing one stays the same.
\<close>

definition up :: "filesystem \<Rightarrow> filesystem" where
  "up fs =
     (case above fs of
        [] \<Rightarrow> fs
      | Frame name pmode earlier later # frames \<Rightarrow>
          fs\<lparr>entries := earlier @ (name, Dir (cwd_mode fs) (entries fs)) # later,
               cwd_mode := pmode, above := frames\<rparr>)"

definition down :: "string \<Rightarrow> int \<Rightarrow> (string \<times> node) list \<Rightarrow> filesystem \<Rightarrow> filesystem" where
  "down name p es fs =
     fs\<lparr>entries := es, cwd_mode := p,
          above := Frame name (cwd_mode fs)
                     (takeWhile (\<lambda>e. fst e \<noteq> name) (entries fs))
                     (tl (dropWhile (\<lambda>e. fst e \<noteq> name) (entries fs)))
                   # above fs\<rparr>"

definition enter :: "nat \<Rightarrow> filesystem \<Rightarrow> filesystem" where
  "enter i fs =
     (if i < length (entries fs) then
        (case entries fs ! i of
           (name, Dir p es) \<Rightarrow>
             fs\<lparr>entries := es, cwd_mode := p,
                  above := Frame name (cwd_mode fs) (take i (entries fs)) (drop (Suc i) (entries fs))
                           # above fs\<rparr>
         | _ \<Rightarrow> fs)
      else fs)"

datatype move = Went_up nat | Went_down

fun undo :: "move list \<Rightarrow> filesystem \<Rightarrow> filesystem" where
  "undo [] fs = fs"
| "undo (Went_down # ms) fs = undo ms (up fs)"
| "undo (Went_up i # ms) fs = undo ms (enter i fs)"

fun climb :: "frame list \<Rightarrow> filesystem \<Rightarrow> move list \<Rightarrow> filesystem \<times> move list" where
  "climb [] fs ms = (fs, ms)"
| "climb (Frame name pmode earlier later # frames) fs ms =
     climb frames (up fs) (Went_up (length earlier) # ms)"

text \<open>
  The parts of a path: its components (the pieces between slashes, empty pieces
  dropped), whether it starts at the root, and whether it ends with a slash.
  \<open>path_kind\<close> tells a path that is a single name, the ordinary case of an entry of
  the working directory, from the others. Python refuses a path with a NUL byte with
  \<^verbatim>\<open>TypeError\<close> before any system call; the empty path is \<^verbatim>\<open>ENOENT\<close>.
\<close>

fun components_from :: "string \<Rightarrow> string \<Rightarrow> string list" where
  "components_from cur [] = (if cur = [] then [] else [cur])"
| "components_from cur (c # cs) =
     (if c = CHR ''/'' then (if cur = [] then [] else [cur]) @ components_from [] cs
      else components_from (cur @ [c]) cs)"

definition components :: "string \<Rightarrow> string list" where
  "components path = components_from [] path"

definition absolute :: "string \<Rightarrow> bool" where
  "absolute path = (path \<noteq> [] \<and> hd path = CHR ''/'')"

definition trailing_slash :: "string \<Rightarrow> bool" where
  "trailing_slash path = (path \<noteq> [] \<and> last path = CHR ''/'')"

datatype path_kind = HasNul | Empty | Component | Other

definition path_kind :: "string \<Rightarrow> path_kind" where
  "path_kind name =
     (if NUL \<in> set name then HasNul
      else if name = [] then Empty
      else if CHR ''/'' \<in> set name \<or> name = ''.'' \<or> name = ''..'' then Other
      else Component)"

definition from_root :: "string \<Rightarrow> filesystem \<Rightarrow> move list \<Rightarrow> filesystem \<times> move list" where
  "from_root path fs ms = (if absolute path then climb (above fs) fs ms else (fs, ms))"

text \<open>
  Path resolution, \<^verbatim>\<open>path_resolution(7)\<close>. \<open>follow_path n i slash cs fs ms\<close> walks
  the components \<open>cs\<close> from the directory \<open>fs\<close>, having followed \<open>n\<close> symbolic links
  and made the moves \<open>ms\<close>. Every component but the last must be a directory, or a
  link to one. The result is the directory reached, the moves, and the last component
  when that is a name to be looked up in that directory (it need not exist); there is no
  last component when the path ends in \<^verbatim>\<open>.\<close> or \<^verbatim>\<open>..\<close> or is the root, and then
  the path names the directory reached. A link in the middle of a path is followed: its
  target is put in front of the components that are left, from the root if the target
  starts there. A link at the end is followed or not according to the call, \<open>i\<close>:
  \<^verbatim>\<open>lstat\<close> follows it only when the path ends with a slash, \<^verbatim>\<open>chmod\<close> and
  \<^verbatim>\<open>chdir\<close> always, \<^verbatim>\<open>mkdir\<close> and \<^verbatim>\<open>symlink\<close> never, and \<^verbatim>\<open>open\<close> with
  \<^verbatim>\<open>O_CREAT\<close> unless the path ends with a slash (where it fails). \<open>slash\<close> says that
  the path, or the link target that has taken its place, ends with a slash. The kernel
  follows at most 40 links, then the error is \<^verbatim>\<open>ELOOP\<close>; a link with an empty target
  is \<^verbatim>\<open>ENOENT\<close>.
\<close>

datatype intent = Lstat | Follow | Create | Open_create

fun stops_at_link :: "intent \<Rightarrow> bool \<Rightarrow> bool" where
  "stops_at_link Lstat slash = (\<not> slash)"
| "stops_at_link Follow slash = False"
| "stops_at_link Create slash = True"
| "stops_at_link Open_create slash = slash"

function follow_path ::
  "nat \<Rightarrow> intent \<Rightarrow> bool \<Rightarrow> string list \<Rightarrow> filesystem \<Rightarrow> move list
     \<Rightarrow> errno + filesystem \<times> move list \<times> string option \<times> bool"
where
  "follow_path n i slash [] fs ms = Inr (fs, ms, None, slash)"
| "follow_path n i slash (c # cs) fs ms =
     (if c = ''.'' then follow_path n i slash cs fs ms
      else if c = ''..'' then
        (case above fs of
           [] \<Rightarrow> follow_path n i slash cs fs ms
         | Frame name pmode earlier later # frames \<Rightarrow>
             follow_path n i slash cs (up fs) (Went_up (length earlier) # ms))
      else
        (case map_of (entries fs) c of
           None \<Rightarrow> if cs = [] then Inr (fs, ms, Some c, slash) else Inl ENOENT
         | Some (Dir p es) \<Rightarrow>
             if cs = [] then Inr (fs, ms, Some c, slash)
             else follow_path n i slash cs (down c p es fs) (Went_down # ms)
         | Some (Symlink t) \<Rightarrow>
             if cs = [] \<and> stops_at_link i slash then Inr (fs, ms, Some c, slash)
             else if 40 \<le> n then Inl ELOOP
             else if t = [] then Inl ENOENT
             else follow_path (Suc n) i (if cs = [] then slash \<or> trailing_slash t else slash)
                    (components t @ cs) (fst (from_root t fs ms)) (snd (from_root t fs ms))
         | Some (File p content) \<Rightarrow>
             if cs = [] then Inr (fs, ms, Some c, slash) else Inl ENOTDIR
         | Some (Special k p) \<Rightarrow>
             if cs = [] then Inr (fs, ms, Some c, slash) else Inl ENOTDIR))"
  by pat_completeness auto
termination
  by (relation "inv_image (less_than <*lex*> less_than)
        (\<lambda>(n, i, slash, cs, fs, ms). (40 - n, length cs))") auto

definition resolve ::
  "intent \<Rightarrow> string \<Rightarrow> filesystem \<Rightarrow> errno + filesystem \<times> move list \<times> string option \<times> bool" where
  "resolve i path fs =
     follow_path 0 i (trailing_slash path) (components path)
       (fst (from_root path fs [])) (snd (from_root path fs []))"

fun is_dir :: "node \<Rightarrow> bool" where
  "is_dir (Dir p es) = True"
| "is_dir _ = False"

text \<open>
  \<^verbatim>\<open>os.mkdir(path)\<close>, with the mode \<^verbatim>\<open>0777\<close> of Python: the new directory has the
  bits \<^verbatim>\<open>0777 & ~umask\<close> and, as \<^verbatim>\<open>mkdir(2)\<close> says for Linux, the set-group-ID
  bit (\<^verbatim>\<open>02000 = 1024\<close>) of the directory it is made in. A last component that
  exists, be it a dangling link, and a path that ends in \<^verbatim>\<open>.\<close> or \<^verbatim>\<open>..\<close> are
  \<^verbatim>\<open>EEXIST\<close>.
\<close>

definition new_dir_mode :: "int \<Rightarrow> int \<Rightarrow> int" where
  "new_dir_mode u pmode = (511 AND NOT u) OR (pmode AND 1024)"

definition os_mkdir :: "string \<Rightarrow> filesystem \<Rightarrow> (error + unit) \<times> filesystem" where
  "os_mkdir path fs =
     (case path_kind path of
        HasNul \<Rightarrow> (Inl TypeError, fs)
      | Empty \<Rightarrow> (Inl (OSError ENOENT), fs)
      | _ \<Rightarrow>
          (case resolve Create path fs of
             Inl e \<Rightarrow> (Inl (OSError e), fs)
           | Inr (d, ms, None, slash) \<Rightarrow> (Inl (OSError EEXIST), fs)
           | Inr (d, ms, Some name, slash) \<Rightarrow>
               (case map_of (entries d) name of
                  Some nd \<Rightarrow> (Inl (OSError EEXIST), fs)
                | None \<Rightarrow>
                    (Inr (), undo ms
                       (d\<lparr>entries := entries d
                                        @ [(name, Dir (new_dir_mode (umask fs) (cwd_mode d)) [])]\<rparr>)))))"

text \<open>\<^verbatim>\<open>os.chdir(path)\<close>: the directory that the path names becomes the working
  directory.\<close>

definition os_chdir :: "string \<Rightarrow> filesystem \<Rightarrow> (error + unit) \<times> filesystem" where
  "os_chdir path fs =
     (case path_kind path of
        HasNul \<Rightarrow> (Inl TypeError, fs)
      | Empty \<Rightarrow> (Inl (OSError ENOENT), fs)
      | _ \<Rightarrow>
          (case resolve Follow path fs of
             Inl e \<Rightarrow> (Inl (OSError e), fs)
           | Inr (d, ms, None, slash) \<Rightarrow> (Inr (), d)
           | Inr (d, ms, Some name, slash) \<Rightarrow>
               (case map_of (entries d) name of
                  None \<Rightarrow> (Inl (OSError ENOENT), fs)
                | Some (Dir p es) \<Rightarrow> (Inr (), down name p es d)
                | Some nd \<Rightarrow> (Inl (OSError ENOTDIR), fs))))"

text \<open>
  \<^verbatim>\<open>with open(name, 'w') as f: f.write(contents)\<close>, that is \<^verbatim>\<open>open\<close> with
  \<^verbatim>\<open>O_WRONLY | O_CREAT | O_TRUNC\<close> and mode \<^verbatim>\<open>0666\<close>: a new file gets the
  permission bits \<^verbatim>\<open>0666 & ~umask\<close>, an existing regular file is truncated and keeps
  its bits. A link is followed, so that the file a dangling link points to is created. A
  path that ends with a slash is \<^verbatim>\<open>EISDIR\<close>. What writing to a device, a FIFO or a
  socket does is not part of the model: \<open>OutsideModel\<close>.
\<close>

definition open_write :: "string \<Rightarrow> string \<Rightarrow> filesystem \<Rightarrow> (error + unit) \<times> filesystem" where
  "open_write path contents fs =
     (case path_kind path of
        HasNul \<Rightarrow> (Inl TypeError, fs)
      | Empty \<Rightarrow> (Inl (IOError ENOENT), fs)
      | _ \<Rightarrow>
          (case resolve Open_create path fs of
             Inl e \<Rightarrow> (Inl (IOError e), fs)
           | Inr (d, ms, None, slash) \<Rightarrow> (Inl (IOError EISDIR), fs)
           | Inr (d, ms, Some name, slash) \<Rightarrow>
               if slash then (Inl (IOError EISDIR), fs)
               else
                 (case map_of (entries d) name of
                    None \<Rightarrow>
                      (Inr (), undo ms
                         (d\<lparr>entries := entries d @ [(name, File (438 AND NOT (umask fs)) contents)]\<rparr>))
                  | Some (File p old) \<Rightarrow>
                      (Inr (), undo ms
                         (d\<lparr>entries := AList.update name (File p contents) (entries d)\<rparr>))
                  | Some (Dir p es) \<Rightarrow> (Inl (IOError EISDIR), fs)
                  | Some (Symlink t) \<Rightarrow> (Inl (IOError ELOOP), fs)
                  | Some (Special k p) \<Rightarrow> (Inl OutsideModel, fs))))"

text \<open>
  \<^verbatim>\<open>os.symlink(src, path)\<close>: an empty target is \<^verbatim>\<open>ENOENT\<close>; a last component that
  exists is \<^verbatim>\<open>EEXIST\<close>, and one that does not exist in a path that ends with a slash
  is \<^verbatim>\<open>ENOENT\<close>.
\<close>

definition os_symlink :: "string \<Rightarrow> string \<Rightarrow> filesystem \<Rightarrow> (error + unit) \<times> filesystem" where
  "os_symlink src path fs =
     (if NUL \<in> set src then (Inl TypeError, fs)
      else case path_kind path of
        HasNul \<Rightarrow> (Inl TypeError, fs)
      | Empty \<Rightarrow> (Inl (OSError ENOENT), fs)
      | _ \<Rightarrow>
          (if src = [] then (Inl (OSError ENOENT), fs)
           else case resolve Create path fs of
             Inl e \<Rightarrow> (Inl (OSError e), fs)
           | Inr (d, ms, None, slash) \<Rightarrow> (Inl (OSError EEXIST), fs)
           | Inr (d, ms, Some name, slash) \<Rightarrow>
               (case map_of (entries d) name of
                  Some nd \<Rightarrow> (Inl (OSError EEXIST), fs)
                | None \<Rightarrow>
                    if slash then (Inl (OSError ENOENT), fs)
                    else (Inr (), undo ms (d\<lparr>entries := entries d @ [(name, Symlink src)]\<rparr>)))))"

text \<open>\<^verbatim>\<open>os.lstat(path).st_mode\<close>: a link at the end of the path is not followed,
  unless the path ends with a slash, which asks for a directory.\<close>

definition os_lstat :: "string \<Rightarrow> filesystem \<Rightarrow> error + int" where
  "os_lstat path fs =
     (case path_kind path of
        HasNul \<Rightarrow> Inl TypeError
      | Empty \<Rightarrow> Inl (OSError ENOENT)
      | _ \<Rightarrow>
          (case resolve Lstat path fs of
             Inl e \<Rightarrow> Inl (OSError e)
           | Inr (d, ms, None, slash) \<Rightarrow> Inr (st_mode (Dir (cwd_mode d) (entries d)))
           | Inr (d, ms, Some name, slash) \<Rightarrow>
               (case map_of (entries d) name of
                  None \<Rightarrow> Inl (OSError ENOENT)
                | Some nd \<Rightarrow>
                    if slash \<and> \<not> is_dir nd then Inl (OSError ENOTDIR) else Inr (st_mode nd))))"

text \<open>
  \<^verbatim>\<open>os.chmod(path, mode)\<close> follows a symbolic link at the end of the path: the bits
  of the file or directory that the link leads to are set, not those of the link. The
  system call keeps the lower twelve bits of \<open>mode\<close>.
\<close>

fun set_perms :: "int \<Rightarrow> node \<Rightarrow> node" where
  "set_perms mode (File p c) = File (mode AND 4095) c"
| "set_perms mode (Dir p es) = Dir (mode AND 4095) es"
| "set_perms mode (Special k p) = Special k (mode AND 4095)"
| "set_perms mode (Symlink t) = Symlink t"

definition os_chmod :: "string \<Rightarrow> int \<Rightarrow> filesystem \<Rightarrow> (error + unit) \<times> filesystem" where
  "os_chmod path mode fs =
     (case path_kind path of
        HasNul \<Rightarrow> (Inl TypeError, fs)
      | Empty \<Rightarrow> (Inl (OSError ENOENT), fs)
      | _ \<Rightarrow>
          (case resolve Follow path fs of
             Inl e \<Rightarrow> (Inl (OSError e), fs)
           | Inr (d, ms, None, slash) \<Rightarrow> (Inr (), undo ms (d\<lparr>cwd_mode := mode AND 4095\<rparr>))
           | Inr (d, ms, Some name, slash) \<Rightarrow>
               (case map_of (entries d) name of
                  None \<Rightarrow> (Inl (OSError ENOENT), fs)
                | Some nd \<Rightarrow>
                    if slash \<and> \<not> is_dir nd then (Inl (OSError ENOTDIR), fs)
                    else (Inr (), undo ms
                            (d\<lparr>entries := AList.update name (set_perms mode nd) (entries d)\<rparr>)))))"

text \<open>\<^verbatim>\<open>_MakeOneDir\<close>: \<^verbatim>\<open>os.mkdir\<close>, where \<^verbatim>\<open>EEXIST\<close> is swallowed.\<close>

definition MakeOneDir :: "string \<Rightarrow> filesystem \<Rightarrow> (error + unit) \<times> filesystem" where
  "MakeOneDir dir fs =
     (case os_mkdir dir fs of
        (Inl (OSError EEXIST), fs') \<Rightarrow> (Inr (), fs')
      | r \<Rightarrow> r)"


subsection \<open>The verifier\<close>

text \<open>
  \<^verbatim>\<open>self.current\<close> is \<^verbatim>\<open>None\<close> or a list of pairs \<open>(name, checksum)\<close>;
  \<^verbatim>\<open>self.stack\<close> is a list of such lists, its top is the last element. In the source
  \<^verbatim>\<open>Push\<close> appends to the stack the very list it assigns to \<^verbatim>\<open>current\<close>, and
  \<^verbatim>\<open>Pop\<close> assigns the new top of the stack to \<^verbatim>\<open>current\<close>: while the stack is not
  empty, \<^verbatim>\<open>current\<close> and the top of the stack are one object, and the
  \<^verbatim>\<open>append\<close> of \<^verbatim>\<open>OnEntry\<close> shows in both. The model therefore appends to both.
\<close>

record verifier =
  current :: "(string \<times> string) list option"
  stack :: "(string \<times> string) list list"

definition Verifier_init :: verifier where
  "Verifier_init = \<lparr>current = None, stack = []\<rparr>"

definition Push :: "verifier \<Rightarrow> verifier" where
  "Push v = \<lparr>current = Some [], stack = stack v @ [[]]\<rparr>"

definition OnEntry :: "verifier \<Rightarrow> string \<Rightarrow> string \<Rightarrow> error + verifier" where
  "OnEntry v name actual_checksum =
     (case current v of
        None \<Rightarrow> Inl AttributeError
      | Some c \<Rightarrow>
          Inr \<lparr>current = Some (c @ [(name, actual_checksum)]),
               stack = (if stack v = [] then []
                        else butlast (stack v) @ [last (stack v) @ [(name, actual_checksum)]])\<rparr>)"

abbreviation (input) exec_mask :: int where "exec_mask \<equiv> S_IXUSR OR S_IXGRP OR S_IXOTH"

text \<open>
  The \<^verbatim>\<open>for line in dir_obj.splitlines()\<close> loop of \<^verbatim>\<open>Pop\<close>, with the list
  \<^verbatim>\<open>expected\<close> built so far. Unpacking \<^verbatim>\<open>line.split(' ', 3)\<close> into four names
  raises \<^verbatim>\<open>ValueError\<close> unless there are four fields.
\<close>

fun Pop_lines ::
  "string \<Rightarrow> string list \<Rightarrow> (string \<times> string) list \<Rightarrow> filesystem
     \<Rightarrow> (error + (string \<times> string) list) \<times> filesystem"
where
  "Pop_lines dir_obj [] expected fs = (Inr expected, fs)"
| "Pop_lines dir_obj (line # lines) expected fs =
     (case py_split 3 line of
        [exec_bit, type, expected_checksum, name] \<Rightarrow>
          if exec_bit = ''x'' then
            (case os_lstat name fs of
               Inl e \<Rightarrow> (Inl e, fs)
             | Inr mode \<Rightarrow>
                 (case os_chmod name (mode OR exec_mask) fs of
                    (Inl e, fs') \<Rightarrow> (Inl e, fs')
                  | (Inr u, fs') \<Rightarrow>
                      Pop_lines dir_obj lines (expected @ [(name, expected_checksum)]) fs'))
          else if exec_bit = ''-'' then
            Pop_lines dir_obj lines (expected @ [(name, expected_checksum)]) fs
          else (Inl (RuntimeError (InvalidExecBit exec_bit)), fs)
      | _ \<Rightarrow> (Inl (RuntimeError (InvalidDirectoryEntry line dir_obj)), fs))"

text \<open>
  \<^verbatim>\<open>Verifier.Pop\<close>. When \<^verbatim>\<open>current\<close> is \<^verbatim>\<open>None\<close> the comparison
  \<^verbatim>\<open>expected == actual\<close> is false and \<^verbatim>\<open>for n, c in actual\<close> raises
  \<^verbatim>\<open>TypeError\<close>; \<^verbatim>\<open>self.stack.pop()\<close> on an empty stack raises
  \<^verbatim>\<open>IndexError\<close>.
\<close>

definition Pop :: "verifier \<Rightarrow> string \<Rightarrow> filesystem \<Rightarrow> (error + verifier) \<times> filesystem" where
  "Pop v dir_obj fs =
     (case Pop_lines dir_obj (splitlines dir_obj) [] fs of
        (Inl e, fs') \<Rightarrow> (Inl e, fs')
      | (Inr expected, fs') \<Rightarrow>
          (case current v of
             None \<Rightarrow> (Inl TypeError, fs')
           | Some actual \<Rightarrow>
               if expected = actual then
                 (if stack v = [] then (Inl IndexError, fs')
                  else (Inr \<lparr>current = (if butlast (stack v) \<noteq> []
                                         then Some (last (butlast (stack v))) else current v),
                             stack = butlast (stack v)\<rparr>, fs'))
               else (Inl (RuntimeError StreamIntegrityError), fs')))"

subsection \<open>The unpacker\<close>

text \<open>
  Modelled from the spec: \<^verbatim>\<open>tnet.readbytes\<close>, of the module \<^verbatim>\<open>tnet\<close> that is
  not among the sources, is the spec's ``read a blob''. The input stream
  \<^verbatim>\<open>in_file\<close> is the list of blobs still to be read: \<^verbatim>\<open>tnet.readbytes\<close>
  returns the first of them, and raises \<^verbatim>\<open>EOFError\<close> when there is none. \<open>unpack_loop\<close> is the \<^verbatim>\<open>while True\<close> loop of \<^verbatim>\<open>_UnpackTree\<close>
  with the variables \<^verbatim>\<open>v\<close> and \<^verbatim>\<open>level\<close>; when the loop is left by
  \<^verbatim>\<open>break\<close> it returns the blobs that are left. Unpacking \<^verbatim>\<open>op.split(' ', 1)\<close>
  into two names raises \<^verbatim>\<open>ValueError\<close> unless there are two fields.
\<close>

fun unpack_loop ::
  "verifier \<Rightarrow> int \<Rightarrow> string list \<Rightarrow> filesystem \<Rightarrow> (error + string list) \<times> filesystem"
where
  "unpack_loop v level [] fs = (Inr [], fs)"
| "unpack_loop v level (op # in_file) fs =
     (case py_split 1 op of
        [command, name] \<Rightarrow>
          (case in_file of
             [] \<Rightarrow> (Inl (RuntimeError ExpectedContentsGotEOF), fs)
           | contents # in_file' \<Rightarrow>
               if command = ''>'' then
                 (case (if name \<noteq> ''.''
                        then (case MakeOneDir name fs of
                                (Inl e, fs') \<Rightarrow> (Inl e, fs')
                              | (Inr u, fs') \<Rightarrow> os_chdir name fs')
                        else (Inr (), fs)) of
                    (Inl e, fs') \<Rightarrow> (Inl e, fs')
                  | (Inr u, fs') \<Rightarrow> unpack_loop (Push v) (level + 1) in_file' fs')
               else if command = ''<'' then
                 (case Pop v contents fs of
                    (Inl e, fs') \<Rightarrow> (Inl e, fs')
                  | (Inr v', fs') \<Rightarrow>
                      (case OnEntry v' name (sha1_hexdigest contents) of
                         Inl e \<Rightarrow> (Inl e, fs')
                       | Inr v'' \<Rightarrow>
                           if level - 1 = 0 then (Inr in_file', fs')
                           else if name \<noteq> ''.'' then
                             (case os_chdir ''..'' fs' of
                                (Inl e, fs'') \<Rightarrow> (Inl e, fs'')
                              | (Inr u, fs'') \<Rightarrow> unpack_loop v'' (level - 1) in_file' fs'')
                           else unpack_loop v'' (level - 1) in_file' fs'))
               else if command = ''F'' then
                 (case open_write name contents fs of
                    (Inl e, fs') \<Rightarrow> (Inl e, fs')
                  | (Inr u, fs') \<Rightarrow>
                      (case OnEntry v name (sha1_hexdigest contents) of
                         Inl e \<Rightarrow> (Inl e, fs')
                       | Inr v' \<Rightarrow> unpack_loop v' level in_file' fs'))
               else if command = ''L'' then
                 (case os_symlink contents name fs of
                    (Inl (OSError EEXIST), fs') \<Rightarrow>
                      (case OnEntry v name (sha1_hexdigest contents) of
                         Inl e \<Rightarrow> (Inl e, fs')
                       | Inr v' \<Rightarrow> unpack_loop v' level in_file' fs')
                  | (Inl (OSError e), fs') \<Rightarrow>
                      (Inl (RuntimeError (ErrorMakingSymlink name e)), fs')
                  | (Inl e, fs') \<Rightarrow> (Inl e, fs')
                  | (Inr u, fs') \<Rightarrow>
                      (case OnEntry v name (sha1_hexdigest contents) of
                         Inl e \<Rightarrow> (Inl e, fs')
                       | Inr v' \<Rightarrow> unpack_loop v' level in_file' fs'))
               else (Inl (RuntimeError (InvalidCommand command)), fs))
      | _ \<Rightarrow> (Inl (RuntimeError (InvalidOpRecord op)), fs))"

text \<open>
  \<open>UnpackTree in_file dir fs\<close> is \<^verbatim>\<open>_UnpackTree(in_file, dir)\<close>. The source prints
  \<^verbatim>\<open>root_checksum\<close>, the blob read after the loop, to standard output: that is the
  value returned here.
\<close>

definition UnpackTree :: "string list \<Rightarrow> string \<Rightarrow> filesystem \<Rightarrow> (error + string) \<times> filesystem" where
  "UnpackTree in_file dir fs =
     (case MakeOneDir dir fs of
        (Inl e, fs1) \<Rightarrow> (Inl e, fs1)
      | (Inr u, fs1) \<Rightarrow>
          (case os_chdir dir fs1 of
             (Inl e, fs2) \<Rightarrow> (Inl e, fs2)
           | (Inr u, fs2) \<Rightarrow>
               (case in_file of
                  [] \<Rightarrow> (Inl (RuntimeError ExpectedHeaderGotEOF), fs2)
                | header # in_file1 \<Rightarrow>
                    if header \<noteq> ''dfo--'' then (Inl (RuntimeError (ExpectedHeader header)), fs2)
                    else
                      (case unpack_loop Verifier_init 0 in_file1 fs2 of
                         (Inl e, fs3) \<Rightarrow> (Inl e, fs3)
                       | (Inr [], fs3) \<Rightarrow> (Inl (RuntimeError ExpectedRootChecksumGotEOF), fs3)
                       | (Inr (root_checksum # in_file2), fs3) \<Rightarrow> (Inr root_checksum, fs3)))))"

section \<open>Notions used to state the properties\<close>

text \<open>
  What a manifest says: \<open>manifest_entry line\<close> is the pair \<open>(name, checksum)\<close> that
  \<^verbatim>\<open>Pop\<close> appends to \<^verbatim>\<open>expected\<close> for a line of four fields, \<open>x_names lines\<close>
  are the names of the lines whose first field is \<^verbatim>\<open>x\<close>, and \<open>add_x nd\<close> is the node
  after \<^verbatim>\<open>os.chmod(name, mode | exec_mask)\<close>.
\<close>

definition manifest_entry :: "string \<Rightarrow> string \<times> string" where
  "manifest_entry line =
     (case py_split 3 line of [exec_bit, type, checksum, name] \<Rightarrow> (name, checksum) | _ \<Rightarrow> ([], []))"

definition x_names :: "string list \<Rightarrow> string list" where
  "x_names lines =
     concat (map (\<lambda>line. case py_split 3 line of
                            [exec_bit, type, checksum, name] \<Rightarrow> if exec_bit = ''x'' then [name] else []
                          | _ \<Rightarrow> []) lines)"

definition add_x :: "node \<Rightarrow> node" where
  "add_x nd = set_perms (st_mode nd OR exec_mask) nd"

definition perms :: "node \<Rightarrow> int" where
  "perms nd = S_IMODE (st_mode nd)"

text \<open>
  The tree as the packer walks it: \<open>by_name d\<close> lists every directory of \<open>d\<close> in the
  order of \<^verbatim>\<open>sorted(os.listdir(...))\<close>, each name with the node that \<^verbatim>\<open>os.lstat\<close>
  finds under it.
\<close>

lemma size_the_map_of:
  "(name, x) \<in> set es \<Longrightarrow>
   size (the (map_of es name)) < Suc (size_list (size_prod (\<lambda>_. 0) size) es)"
  by (cases "map_of es name")
     (auto simp: map_of_eq_None_iff image_iff dest!: size_map_of_entry)

function by_name :: "node \<Rightarrow> node" where
  "by_name (Dir p es) =
     Dir p (map (\<lambda>name. (name, by_name (the (map_of es name)))) (sort (map fst es)))"
| "by_name (File p c) = File p c"
| "by_name (Symlink t) = Symlink t"
| "by_name (Special k p) = Special k p"
  by pat_completeness auto
termination
  by (relation "measure size") (auto dest: size_the_map_of)

text \<open>
  What the packer emits for a tree whose directories are walked in the order of their
  entry lists: the type letter of a node, the bytes whose digest is the node's checksum
  (\<open>node_obj\<close>; for a directory its manifest), the blobs written for it, and the number
  of nodes and of directories.
\<close>

fun node_type :: "node \<Rightarrow> string" where
  "node_type (File p c) = ''F''"
| "node_type (Symlink t) = ''L''"
| "node_type (Dir p es) = ''D''"
| "node_type (Special k p) = []"

fun node_obj :: "node \<Rightarrow> string" and manifest_of :: "(string \<times> node) list \<Rightarrow> string" where
  "node_obj (File p c) = c"
| "node_obj (Symlink t) = t"
| "node_obj (Dir p es) = manifest_of es"
| "node_obj (Special k p) = []"
| "manifest_of [] = []"
| "manifest_of ((name, nd) # es) =
     manifest_line (st_mode nd) (node_type nd) (sha1_hexdigest (node_obj nd)) name @ [LF]
       @ manifest_of es"

fun node_blobs :: "string \<Rightarrow> node \<Rightarrow> string list"
  and entries_blobs :: "(string \<times> node) list \<Rightarrow> string list" where
  "node_blobs name (File p c) = [''F '' @ name, c]"
| "node_blobs name (Symlink t) = [''L '' @ name, t]"
| "node_blobs name (Dir p es) =
     [''> '' @ name, []] @ entries_blobs es @ [''< '' @ name, manifest_of es]"
| "node_blobs name (Special k p) = []"
| "entries_blobs [] = []"
| "entries_blobs ((name, nd) # es) = node_blobs name nd @ entries_blobs es"

fun count_nodes :: "node \<Rightarrow> nat" and count_entries :: "(string \<times> node) list \<Rightarrow> nat" where
  "count_nodes (Dir p es) = 1 + count_entries es"
| "count_nodes (File p c) = 1"
| "count_nodes (Symlink t) = 1"
| "count_nodes (Special k p) = 1"
| "count_entries [] = 0"
| "count_entries ((name, nd) # es) = count_nodes nd + count_entries es"

fun count_dirs :: "node \<Rightarrow> nat" and count_dir_entries :: "(string \<times> node) list \<Rightarrow> nat" where
  "count_dirs (Dir p es) = 1 + count_dir_entries es"
| "count_dirs (File p c) = 0"
| "count_dirs (Symlink t) = 0"
| "count_dirs (Special k p) = 0"
| "count_dir_entries [] = 0"
| "count_dir_entries ((name, nd) # es) = count_dirs nd + count_dir_entries es"

text \<open>A tree of regular files, directories and symbolic links only.\<close>

fun packable :: "node \<Rightarrow> bool" where
  "packable (Special k p) = False"
| "packable (Dir p es) = (\<forall>e \<in> set es. packable (snd e))"
| "packable (File p c) = True"
| "packable (Symlink t) = True"

fun children :: "node \<Rightarrow> (string \<times> node) list" where
  "children (Dir p es) = es"
| "children _ = []"

definition walk :: "(string \<times> node) list \<Rightarrow> string list \<Rightarrow> (string \<times> node) list" where
  "walk es names = map (\<lambda>name. (name, by_name (the (map_of es name)))) names"

text \<open>Well-formed listings: no directory lists a name twice.\<close>

fun distinct_names :: "node \<Rightarrow> bool" where
  "distinct_names (Dir p es) = (distinct (map fst es) \<and> (\<forall>e \<in> set es. distinct_names (snd e)))"
| "distinct_names (File p c) = True"
| "distinct_names (Symlink t) = True"
| "distinct_names (Special k p) = True"

text \<open>
  Two states of the source tree hold the same tree when they differ at most in the order
  in which \<^verbatim>\<open>os.listdir\<close> returns the entries of a directory: the same names are
  listed, and the same node is found under each name.
\<close>

inductive same_tree :: "node \<Rightarrow> node \<Rightarrow> bool" where
  same_File: "same_tree (File p c) (File p c)"
| same_Symlink: "same_tree (Symlink t) (Symlink t)"
| same_Special: "same_tree (Special k p) (Special k p)"
| same_Dir:
    "mset (map fst es) = mset (map fst es') \<Longrightarrow>
     (\<forall>name \<in> set (map fst es). same_tree (the (map_of es name)) (the (map_of es' name))) \<Longrightarrow>
     same_tree (Dir p es) (Dir p es')"

code_pred (modes: i \<Rightarrow> i \<Rightarrow> bool) same_tree .

text \<open>
  What the unpacker builds from the stream of a tree. \<open>created u pm nd\<close> is the node
  right after its record (for a directory: after its closing record) under the mask
  \<open>u\<close>, in a directory with the permission bits \<open>pm\<close>: a new file has the bits
  \<^verbatim>\<open>0666 & ~umask\<close>, a new directory \<open>new_dir_mode u pm\<close>. When the enclosing
  directory closes, the entries whose manifest line says \<^verbatim>\<open>x\<close> get their executable
  bits: \<open>unpacked_entries\<close>.
\<close>

definition is_exec :: "node \<Rightarrow> bool" where
  "is_exec nd = (node_type nd = ''F'' \<and> S_IMODE (st_mode nd) AND S_IXUSR \<noteq> 0)"

fun created :: "int \<Rightarrow> int \<Rightarrow> node \<Rightarrow> node"
  and unpacked_entries :: "int \<Rightarrow> int \<Rightarrow> (string \<times> node) list \<Rightarrow> (string \<times> node) list" where
  "created u pm (File p c) = File (438 AND NOT u) c"
| "created u pm (Symlink t) = Symlink t"
| "created u pm (Dir p es) = Dir (new_dir_mode u pm) (unpacked_entries u (new_dir_mode u pm) es)"
| "created u pm (Special k p) = Special k p"
| "unpacked_entries u pm [] = []"
| "unpacked_entries u pm ((name, nd) # es) =
     (name, if is_exec nd then add_x (created u pm nd) else created u pm nd)
       # unpacked_entries u pm es"

definition created_entries :: "int \<Rightarrow> int \<Rightarrow> (string \<times> node) list \<Rightarrow> (string \<times> node) list" where
  "created_entries u pm es = map (\<lambda>e. (fst e, created u pm (snd e))) es"

definition actual_of :: "(string \<times> node) list \<Rightarrow> (string \<times> string) list" where
  "actual_of es = map (\<lambda>e. (fst e, sha1_hexdigest (node_obj (snd e)))) es"

definition line_of :: "string \<times> node \<Rightarrow> string" where
  "line_of e =
     manifest_line (st_mode (snd e)) (node_type (snd e)) (sha1_hexdigest (node_obj (snd e))) (fst e)"

text \<open>
  The trees that the format can represent: there are only files, links and directories,
  a link has a target, no directory lists a name twice, and every name is a single path
  component (which holds in every file system) without a newline, the character that
  ends a manifest line. \<open>no_carriage_return\<close> says that no name contains a carriage
  return, and \<open>unpackable\<close> is both together.
\<close>

fun representable :: "node \<Rightarrow> bool" where
  "representable (Dir p es) =
     (distinct (map fst es) \<and>
      (\<forall>e \<in> set es. path_kind (fst e) = Component \<and> LF \<notin> set (fst e) \<and> representable (snd e)))"
| "representable (Symlink t) = (t \<noteq> [] \<and> NUL \<notin> set t)"
| "representable (File p c) = True"
| "representable (Special k p) = False"

fun no_carriage_return :: "node \<Rightarrow> bool" where
  "no_carriage_return (Dir p es) =
     (\<forall>e \<in> set es. CR \<notin> set (fst e) \<and> no_carriage_return (snd e))"
| "no_carriage_return (File p c) = True"
| "no_carriage_return (Symlink t) = True"
| "no_carriage_return (Special k p) = True"

fun unpackable :: "node \<Rightarrow> bool" where
  "unpackable (Dir p es) =
     (distinct (map fst es) \<and>
      (\<forall>e \<in> set es. path_kind (fst e) = Component \<and> LF \<notin> set (fst e) \<and> CR \<notin> set (fst e)
                      \<and> unpackable (snd e)))"
| "unpackable (Symlink t) = (t \<noteq> [] \<and> NUL \<notin> set t)"
| "unpackable (File p c) = True"
| "unpackable (Special k p) = False"

text \<open>
  The destination of the unpacker: no entry of the working directory has the name, or
  the entry is a directory without entries.
\<close>

definition absent_or_empty :: "filesystem \<Rightarrow> string \<Rightarrow> bool" where
  "absent_or_empty fs dir =
     (case map_of (entries fs) dir of
        None \<Rightarrow> True
      | Some (Dir m es) \<Rightarrow> es = []
      | Some nd \<Rightarrow> False)"

text \<open>
  What the format keeps of a tree: two trees are the same in what is tracked when the
  same names are listed in every directory and under each name there is a regular file
  with the same contents and the same owner-executable flag, a link with the same
  target, or a directory that again is the same in what is tracked. Permission bits
  other than \<^verbatim>\<open>S_IXUSR\<close> of a file, the bits of a directory and the order of a
  listing are not compared.
\<close>

inductive same_tracked :: "node \<Rightarrow> node \<Rightarrow> bool" where
  tracked_File:
    "(p AND S_IXUSR \<noteq> 0) = (p' AND S_IXUSR \<noteq> 0) \<Longrightarrow> same_tracked (File p c) (File p' c)"
| tracked_Symlink: "same_tracked (Symlink t) (Symlink t)"
| tracked_Dir:
    "mset (map fst es) = mset (map fst es') \<Longrightarrow>
     (\<forall>name \<in> set (map fst es). same_tracked (the (map_of es name)) (the (map_of es' name))) \<Longrightarrow>
     same_tracked (Dir p es) (Dir p' es')"

code_pred (modes: i \<Rightarrow> i \<Rightarrow> bool) same_tracked .

definition unpacked :: "int \<Rightarrow> int \<Rightarrow> node \<Rightarrow> node" where
  "unpacked u pm nd = (if is_exec nd then add_x (created u pm nd) else created u pm nd)"

text \<open>
  The calls that the manifest loop of \<^verbatim>\<open>Pop\<close> makes for the names of the \<^verbatim>\<open>x\<close>
  lines, in their order: \<^verbatim>\<open>mode = os.lstat(name).st_mode\<close> and then
  \<^verbatim>\<open>os.chmod(name, mode | exec_mask)\<close>, until one of them raises.
\<close>

fun exec_chmods :: "string list \<Rightarrow> filesystem \<Rightarrow> (error + unit) \<times> filesystem" where
  "exec_chmods [] fs = (Inr (), fs)"
| "exec_chmods (name # names) fs =
     (case os_lstat name fs of
        Inl e \<Rightarrow> (Inl e, fs)
      | Inr mode \<Rightarrow>
          (case os_chmod name (mode OR exec_mask) fs of
             (Inl e, fs') \<Rightarrow> (Inl e, fs')
           | (Inr u, fs') \<Rightarrow> exec_chmods names fs'))"

text \<open>
  An \<^verbatim>\<open>x\<close> line of a manifest that the packer wrote names a regular file of the
  directory that is closed. \<open>plain_names fs names\<close> says of the names of a manifest
  that each is a single name, and not that of a symbolic link of the working directory:
  then \<^verbatim>\<open>os.chmod\<close> acts on the entry of that name.
\<close>

definition plain_names :: "filesystem \<Rightarrow> string list \<Rightarrow> bool" where
  "plain_names fs names =
     (\<forall>n \<in> set names. path_kind n = Component \<and> (\<forall>t. map_of (entries fs) n \<noteq> Some (Symlink t)))"

section \<open>Lemmas\<close>

subsection \<open>Facts about the string helpers and the digest\<close>

lemma py_split_no_space: "SP \<notin> set s \<Longrightarrow> py_split n s = [s]"
  by (cases n) auto

lemma takeWhile_tail_sp: "SP \<notin> set a \<Longrightarrow> takeWhile (\<lambda>c. c \<noteq> SP) (a @ SP # r) = a"
  by (induction a) auto

lemma dropWhile_tail_sp: "SP \<notin> set a \<Longrightarrow> dropWhile (\<lambda>c. c \<noteq> SP) (a @ SP # r) = SP # r"
  by (induction a) auto

lemma py_split_Suc_append2:
  "SP \<notin> set a \<Longrightarrow> py_split (Suc n) (a @ SP # r) = a # py_split n r"
  by (simp add: takeWhile_tail_sp dropWhile_tail_sp)

lemma py_split_1: "SP \<notin> set cmd \<Longrightarrow> py_split 1 (cmd @ '' '' @ name) = [cmd, name]"
  using py_split_Suc_append2 [of cmd 0 name] by simp

lemma py_split_3:
  "SP \<notin> set a \<Longrightarrow> SP \<notin> set b \<Longrightarrow> SP \<notin> set c \<Longrightarrow>
   py_split 3 (a @ '' '' @ b @ '' '' @ c @ '' '' @ d) = [a, b, c, d]"
  by (simp add: numeral_3_eq_3 py_split_Suc_append2 del: py_split.simps(2))

lemma splitlines_from_line:
  "LF \<notin> set l \<Longrightarrow> CR \<notin> set l \<Longrightarrow>
   splitlines_from cur (l @ LF # rest) = (rev cur @ l) # splitlines_from [] rest"
  by (induction l arbitrary: cur) auto

lemma splitlines_concat:
  "\<forall>l \<in> set ls. LF \<notin> set l \<and> CR \<notin> set l \<Longrightarrow>
   splitlines (concat (map (\<lambda>d. d @ [LF]) ls)) = ls"
  unfolding splitlines_def
  by (induction ls) (auto simp: splitlines_from_line)

lemma hex_digit_in: "hex_digit n \<in> set ''0123456789abcdef''"
  unfolding hex_digit_def by (rule nth_mem) simp

lemma set_hex_word: "set (hex_word w) \<subseteq> set ''0123456789abcdef''"
  unfolding hex_word_def using hex_digit_in by auto

lemma length_hex_word: "length (hex_word w) = 8"
  by (simp add: hex_word_def)

lemma sha1_hexdigest_form:
  "\<exists>h0 h1 h2 h3 h4. sha1_hexdigest s =
     hex_word h0 @ hex_word h1 @ hex_word h2 @ hex_word h3 @ hex_word h4"
  unfolding sha1_hexdigest_def Let_def
  by (simp split: prod.splits) blast

lemma set_sha1_hexdigest: "set (sha1_hexdigest s) \<subseteq> set ''0123456789abcdef''"
proof -
  obtain h0 h1 h2 h3 h4 where "sha1_hexdigest s =
     hex_word h0 @ hex_word h1 @ hex_word h2 @ hex_word h3 @ hex_word h4"
    using sha1_hexdigest_form by blast
  then show ?thesis
    using set_hex_word [of h0] set_hex_word [of h1] set_hex_word [of h2]
      set_hex_word [of h3] set_hex_word [of h4]
    by (simp only: set_append Un_subset_iff)
qed

lemma length_sha1_hexdigest: "length (sha1_hexdigest s) = 40"
  using sha1_hexdigest_form [of s] by (auto simp: length_hex_word)

lemma sha1_hexdigest_chars:
  "SP \<notin> set (sha1_hexdigest s)" "LF \<notin> set (sha1_hexdigest s)" "CR \<notin> set (sha1_hexdigest s)"
  using set_sha1_hexdigest [of s] by auto

lemma read_loop_eq: "0 < n \<Longrightarrow> read_loop n f payload sha1 = (payload @ f, sha1 @ f)"
proof (induction n f payload sha1 rule: read_loop.induct)
  case (1 n f payload sha1)
  show ?case
  proof (cases "take n f = []")
    case True
    with 1(2) have "f = []" by simp
    then show ?thesis by (simp add: read_loop.simps [of n "[]"])
  next
    case False
    with 1 have "read_loop n (drop n f) (payload @ take n f) (sha1 @ take n f)
                 = ((payload @ take n f) @ drop n f, (sha1 @ take n f) @ drop n f)"
      by simp
    with False show ?thesis
      by (subst read_loop.simps) (simp add: Let_def)
  qed
qed

text \<open>The frame that the packer writes by hand for a regular file announces the number
  of bytes that follow: \<^verbatim>\<open>st_size\<close> is the length of what the loop writes.\<close>

lemma hand_written_frame:
  "read_loop (1024 * 1024) c [] [] = (c, c)"
  "length (fst (read_loop (1024 * 1024) c [] [])) = st_size (File p c)"
  using read_loop_eq [of "1024 * 1024" c "[]" "[]"] by simp_all

subsection \<open>The system calls on a plain name\<close>

text \<open>
  For a path that is one name, resolution stays in the working directory: the name is
  looked up there, and only a symbolic link found under it leads elsewhere.
\<close>

declare follow_path.simps [simp del]

lemma components_from_no_slash:
  "CHR ''/'' \<notin> set s \<Longrightarrow> components_from cur s = (if cur @ s = [] then [] else [cur @ s])"
  by (induction s arbitrary: cur) auto

lemma Component_facts:
  "path_kind name = Component \<Longrightarrow> name \<noteq> ''.'' \<and> name \<noteq> ''..'' \<and> name \<noteq> []"
  by (auto simp: path_kind_def split: if_splits)

lemma Component_path:
  assumes "path_kind name = Component"
  shows "components name = [name]" and "\<not> absolute name" and "\<not> trailing_slash name"
proof -
  from assms have ns: "CHR ''/'' \<notin> set name" and ne: "name \<noteq> []"
    by (auto simp: path_kind_def split: if_splits)
  show "components name = [name]"
    using ns ne by (simp add: components_def components_from_no_slash)
  from ne have "hd name \<in> set name" "last name \<in> set name" by simp_all
  with ns show "\<not> absolute name" "\<not> trailing_slash name"
    by (auto simp: absolute_def trailing_slash_def)
qed

lemma resolve_Component:
  assumes "path_kind name = Component"
  shows "resolve i name fs =
     (case map_of (entries fs) name of
        Some (Symlink t) \<Rightarrow>
          if stops_at_link i False then Inr (fs, [], Some name, False)
          else if t = [] then Inl ENOENT
          else follow_path 1 i (trailing_slash t) (components t)
                 (fst (from_root t fs [])) (snd (from_root t fs []))
      | _ \<Rightarrow> Inr (fs, [], Some name, False))"
  using Component_facts [OF assms]
  by (simp add: resolve_def Component_path [OF assms] from_root_def follow_path.simps
      split: option.splits node.splits)

lemma os_lstat_Component:
  "path_kind name = Component \<Longrightarrow>
   os_lstat name fs =
     (case map_of (entries fs) name of
        None \<Rightarrow> Inl (OSError ENOENT)
      | Some nd \<Rightarrow> Inr (st_mode nd))"
  by (simp add: os_lstat_def resolve_Component split: option.splits node.splits)

lemma os_chmod_Component:
  "path_kind name = Component \<Longrightarrow> map_of (entries fs) name = Some nd \<Longrightarrow> \<forall>t. nd \<noteq> Symlink t \<Longrightarrow>
   os_chmod name mode fs
     = (Inr (), fs\<lparr>entries := AList.update name (set_perms mode nd) (entries fs)\<rparr>)"
  by (cases nd) (simp_all add: os_chmod_def resolve_Component)

lemma os_chmod_missing:
  "path_kind name = Component \<Longrightarrow> map_of (entries fs) name = None \<Longrightarrow>
   os_chmod name mode fs = (Inl (OSError ENOENT), fs)"
  by (simp add: os_chmod_def resolve_Component)

lemma os_mkdir_Component:
  "path_kind name = Component \<Longrightarrow>
   os_mkdir name fs =
     (case map_of (entries fs) name of
        Some nd \<Rightarrow> (Inl (OSError EEXIST), fs)
      | None \<Rightarrow>
          (Inr (), fs\<lparr>entries := entries fs
                                   @ [(name, Dir (new_dir_mode (umask fs) (cwd_mode fs)) [])]\<rparr>))"
  by (simp add: os_mkdir_def resolve_Component split: option.splits node.splits)

lemma os_symlink_Component:
  "path_kind name = Component \<Longrightarrow> src \<noteq> [] \<Longrightarrow> NUL \<notin> set src \<Longrightarrow>
   os_symlink src name fs =
     (case map_of (entries fs) name of
        Some nd \<Rightarrow> (Inl (OSError EEXIST), fs)
      | None \<Rightarrow> (Inr (), fs\<lparr>entries := entries fs @ [(name, Symlink src)]\<rparr>))"
  by (simp add: os_symlink_def resolve_Component split: option.splits node.splits)

lemma open_write_Component:
  "path_kind name = Component \<Longrightarrow> \<forall>t. map_of (entries fs) name \<noteq> Some (Symlink t) \<Longrightarrow>
   open_write name contents fs =
     (case map_of (entries fs) name of
        None \<Rightarrow>
          (Inr (), fs\<lparr>entries := entries fs @ [(name, File (438 AND NOT (umask fs)) contents)]\<rparr>)
      | Some (File p old) \<Rightarrow>
          (Inr (), fs\<lparr>entries := AList.update name (File p contents) (entries fs)\<rparr>)
      | Some (Dir p es) \<Rightarrow> (Inl (IOError EISDIR), fs)
      | Some nd \<Rightarrow> (Inl OutsideModel, fs))"
  by (simp add: open_write_def resolve_Component split: option.splits node.splits)

lemma os_chdir_Component:
  "path_kind name = Component \<Longrightarrow> \<forall>t. map_of (entries fs) name \<noteq> Some (Symlink t) \<Longrightarrow>
   os_chdir name fs =
     (case map_of (entries fs) name of
        None \<Rightarrow> (Inl (OSError ENOENT), fs)
      | Some (Dir p es) \<Rightarrow> (Inr (), down name p es fs)
      | Some nd \<Rightarrow> (Inl (OSError ENOTDIR), fs))"
  by (simp add: os_chdir_def resolve_Component split: option.splits node.splits)

lemma os_chdir_up: "os_chdir ''..'' fs = (Inr (), up fs)"
  by (simp add: os_chdir_def path_kind_def resolve_def components_def trailing_slash_def
      from_root_def absolute_def follow_path.simps up_def split: list.splits frame.splits)


subsection \<open>The effect of the manifest loop of Pop\<close>

lemma add_x_simps:
  "add_x (File p c) = File ((p AND 4095) OR exec_mask) c"
  "add_x (Dir p es) = Dir ((p AND 4095) OR exec_mask) es"
  "add_x (Special k p) = Special k ((p AND 4095) OR exec_mask)"
  "add_x (Symlink t) = Symlink t"
  by (cases k; simp add: add_x_def bit.conj_disj_distrib2 and.assoc)+

lemma special_fmt_perms [simp]: "special_fmt k AND 4095 = 0"
  by (cases k) simp_all

lemma add_x_idem: "add_x (add_x nd) = add_x nd"
  by (cases nd) (simp_all add: add_x_simps bit.conj_disj_distrib2 and.assoc)

lemma add_x_link: "add_x nd = Symlink t \<longleftrightarrow> nd = Symlink t"
  by (cases nd) (simp_all add: add_x_simps)


lemma x_names_Cons:
  "x_names (line # lines) =
     (case py_split 3 line of
        [exec_bit, type, checksum, name] \<Rightarrow> if exec_bit = ''x'' then [name] else []
      | _ \<Rightarrow> []) @ x_names lines"
  by (simp add: x_names_def)

lemma map_fst_update:
  "map_of al k = Some v \<Longrightarrow> map fst (AList.update k v' al) = map fst al"
  by (induction al) (auto split: if_splits)

text \<open>The loop builds the list \<^verbatim>\<open>expected\<close> from the lines alone, and what it does to
  the file system are the calls for the \<^verbatim>\<open>x\<close> lines.\<close>

lemma Pop_lines_calls:
  "Pop_lines dir_obj lines expected fs = (Inr expected', fs') \<Longrightarrow>
   expected' = expected @ map manifest_entry lines
   \<and> exec_chmods (x_names lines) fs = (Inr (), fs')"
proof (induction lines arbitrary: expected fs)
  case Nil
  then show ?case by (simp add: x_names_def)
next
  case (Cons line lines)
  from Cons.prems obtain exec_bit type checksum name
    where sp: "py_split 3 line = [exec_bit, type, checksum, name]"
    by (auto split: list.splits)
  have me: "manifest_entry line = (name, checksum)"
    by (simp add: manifest_entry_def sp)
  show ?case
  proof (cases "exec_bit = ''x''")
    case True
    from Cons.prems sp True obtain mode where ls: "os_lstat name fs = Inr mode"
      by (auto split: sum.splits)
    from Cons.prems sp True ls obtain u fs1
      where ch: "os_chmod name (mode OR exec_mask) fs = (Inr u, fs1)"
        and rest: "Pop_lines dir_obj lines (expected @ [(name, checksum)]) fs1 = (Inr expected', fs')"
      by (auto split: sum.splits prod.splits)
    have xn: "x_names (line # lines) = name # x_names lines"
      by (simp add: x_names_Cons sp True)
    from Cons.IH [OF rest] ch show ?thesis
      by (simp add: me xn ls)
  next
    case False
    with Cons.prems sp have dash: "exec_bit = ''-''"
      and rest: "Pop_lines dir_obj lines (expected @ [(name, checksum)]) fs = (Inr expected', fs')"
      by (auto split: if_splits)
    have xn: "x_names (line # lines) = x_names lines"
      by (simp add: x_names_Cons sp False)
    from Cons.IH [OF rest] show ?thesis
      by (simp add: me xn)
  qed
qed

text \<open>On plain names the calls add the executable bits to the entries of these names and
  leave everything else as it is.\<close>

lemma exec_chmods_plain:
  "exec_chmods names fs = (Inr (), fs') \<Longrightarrow> plain_names fs names \<Longrightarrow>
   (\<forall>n. map_of (entries fs') n =
            (if n \<in> set names then map_option add_x (map_of (entries fs) n)
             else map_of (entries fs) n))
   \<and> (\<forall>n \<in> set names. \<exists>nd. map_of (entries fs) n = Some nd)
   \<and> map fst (entries fs') = map fst (entries fs)
   \<and> cwd_mode fs' = cwd_mode fs \<and> above fs' = above fs \<and> umask fs' = umask fs"
proof (induction names arbitrary: fs)
  case Nil
  then show ?case by simp
next
  case (Cons name names)
  from Cons.prems(2) have comp: "path_kind name = Component"
    and nl: "\<forall>t. map_of (entries fs) name \<noteq> Some (Symlink t)"
    and pl: "\<forall>n \<in> set names. path_kind n = Component \<and> (\<forall>t. map_of (entries fs) n \<noteq> Some (Symlink t))"
    by (simp_all add: plain_names_def)
  from Cons.prems(1) obtain nd where nd: "map_of (entries fs) name = Some nd"
    by (cases "map_of (entries fs) name") (auto simp: os_lstat_Component [OF comp])
  let ?fs1 = "fs\<lparr>entries := AList.update name (add_x nd) (entries fs)\<rparr>"
  have ls: "os_lstat name fs = Inr (st_mode nd)"
    by (simp add: os_lstat_Component [OF comp] nd)
  have ch: "os_chmod name (st_mode nd OR exec_mask) fs = (Inr (), ?fs1)"
    using os_chmod_Component [OF comp nd] nl nd by (simp add: add_x_def)
  from Cons.prems(1) ch have rest: "exec_chmods names ?fs1 = (Inr (), fs')"
    by (simp add: ls)
  have "plain_names ?fs1 names"
    using pl nl nd by (auto simp: plain_names_def update_conv' add_x_link split: if_splits)
  from Cons.IH [OF rest this] show ?case
    using nd by (auto simp: update_conv' add_x_idem map_fst_update split: if_splits)
qed

lemma os_lstat_error: "os_lstat path fs = Inl e \<Longrightarrow> e = TypeError \<or> (\<exists>x. e = OSError x)"
  by (auto simp: os_lstat_def split: path_kind.splits sum.splits prod.splits option.splits if_splits)

lemma os_chmod_error:
  "os_chmod path mode fs = (Inl e, fs') \<Longrightarrow> (e = TypeError \<or> (\<exists>x. e = OSError x)) \<and> fs' = fs"
  by (auto simp: os_chmod_def split: path_kind.splits sum.splits prod.splits option.splits if_splits)

lemma Pop_lines_error:
  "Pop_lines dir_obj lines expected fs = (Inl e, fs') \<Longrightarrow> e \<noteq> RuntimeError StreamIntegrityError"
proof (induction lines arbitrary: expected fs)
  case Nil
  then show ?case by simp
next
  case (Cons line lines)
  then show ?case
    by (auto split: list.splits if_splits sum.splits prod.splits
        dest!: os_lstat_error os_chmod_error)
qed

text \<open>When the loop fails, \<^verbatim>\<open>Pop\<close> fails with the same error, before it compares
  anything.\<close>

lemma Pop_loop_error:
  "Pop_lines dir_obj (splitlines dir_obj) [] fs = (Inl e, fs1) \<Longrightarrow> Pop v dir_obj fs = (Inl e, fs1)"
  by (simp add: Pop_def)


text \<open>Lines with the flag \<^verbatim>\<open>-\<close> make no call: the loop runs through them.\<close>

lemma Pop_lines_dash:
  "\<forall>line \<in> set lines. \<exists>type checksum name. py_split 3 line = [''-'', type, checksum, name] \<Longrightarrow>
   Pop_lines dir_obj lines expected fs = (Inr (expected @ map manifest_entry lines), fs)"
proof (induction lines arbitrary: expected)
  case Nil
  then show ?case by simp
next
  case (Cons line lines)
  from Cons.prems obtain type checksum name
    where sp: "py_split 3 line = [''-'', type, checksum, name]"
    by auto
  from Cons.prems have "Pop_lines dir_obj lines (expected @ [(name, checksum)]) fs
      = (Inr ((expected @ [(name, checksum)]) @ map manifest_entry lines), fs)"
    by (intro Cons.IH) simp
  then show ?case
    by (simp add: sp manifest_entry_def del: py_split.simps)
qed


subsection \<open>The stream and the manifest of a tree\<close>

lemma manifest_of_append: "manifest_of (xs @ ys) = manifest_of xs @ manifest_of ys"
  by (induction xs) auto

lemma entries_blobs_append: "entries_blobs (xs @ ys) = entries_blobs xs @ entries_blobs ys"
  by (induction xs) auto

lemma count_entries_append: "count_entries (xs @ ys) = count_entries xs + count_entries ys"
  by (induction xs) auto

lemma count_dir_entries_append:
  "count_dir_entries (xs @ ys) = count_dir_entries xs + count_dir_entries ys"
  by (induction xs) auto

lemma fmt_of_st_mode:
  "st_mode nd AND S_IFMT =
     (case nd of File p c \<Rightarrow> S_IFREG | Symlink t \<Rightarrow> S_IFLNK | Dir p es \<Rightarrow> S_IFDIR
      | Special k p \<Rightarrow> special_fmt k)"
  by (cases nd; simp add: bit.conj_disj_distrib2 and.assoc)
     (rename_tac k p, case_tac k; simp)

lemma S_IS_simps [simp]:
  "S_ISLNK (st_mode nd) \<longleftrightarrow> (\<exists>t. nd = Symlink t)"
  "S_ISREG (st_mode nd) \<longleftrightarrow> (\<exists>p c. nd = File p c)"
  "S_ISDIR (st_mode nd) \<longleftrightarrow> (\<exists>p es. nd = Dir p es)"
  unfolding S_ISLNK_def S_ISREG_def S_ISDIR_def fmt_of_st_mode
  by (cases nd; simp; rename_tac k p; case_tac k; simp)+

subsection \<open>The packer writes the stream of the tree listed by name\<close>

lemma walk_simps [simp]:
  "walk es [] = []"
  "walk es (name # names) = (name, by_name (the (map_of es name))) # walk es names"
  by (simp_all add: walk_def)

lemma by_name_Dir: "by_name (Dir p es) = Dir p (walk es (sort (map fst es)))"
  by (simp add: walk_def)

lemma st_mode_by_name [simp]: "st_mode (by_name nd) = st_mode nd"
  by (cases nd) simp_all

lemma node_type_by_name [simp]: "node_type (by_name nd) = node_type nd"
  by (cases nd) simp_all

lemma S_IS_modes [simp]:
  "S_ISREG (32768 OR (p AND 4095))" "\<not> S_ISLNK (32768 OR (p AND 4095))"
  "\<not> S_ISDIR (32768 OR (p AND 4095))"
  "S_ISDIR (16384 OR (p AND 4095))" "\<not> S_ISLNK (16384 OR (p AND 4095))"
  "\<not> S_ISREG (16384 OR (p AND 4095))"
  "S_ISLNK 41471" "\<not> S_ISREG 41471" "\<not> S_ISDIR 41471"
  by (simp_all add: S_ISLNK_def S_ISREG_def S_ISDIR_def bit.conj_disj_distrib2 and.assoc)

lemma packable_lookup:
  "\<forall>e \<in> set es. packable (snd e) \<Longrightarrow> name \<in> set (sort (map fst es)) \<Longrightarrow>
   \<exists>nd. map_of es name = Some nd \<and> packable nd"
proof -
  assume a: "\<forall>e \<in> set es. packable (snd e)" and "name \<in> set (sort (map fst es))"
  then have "name \<in> fst ` set es" by simp
  then obtain nd where nd: "map_of es name = Some nd"
    by (cases "map_of es name") (auto simp: map_of_eq_None_iff)
  then have "(name, nd) \<in> set es" by (rule map_of_SomeD)
  with a nd show ?thesis by auto
qed

lemma pack_correct:
  "packable d \<Longrightarrow> (\<exists>p es. d = Dir p es) \<Longrightarrow>
     PackTree_rec d outf =
       (Inr (node_obj (by_name d), count_entries (children (by_name d))),
        outf @ entries_blobs (children (by_name d)))"
  "(\<forall>name \<in> set names. \<exists>nd. map_of es name = Some nd \<and> packable nd) \<Longrightarrow>
     pack_entries es names this_dir this_count outf =
       (Inr (concat (map (\<lambda>d. d @ [LF]) this_dir) @ manifest_of (walk es names),
             this_count + count_entries (walk es names)),
        outf @ entries_blobs (walk es names))"
proof (induction d outf and es names this_dir this_count outf
       rule: PackTree_rec_pack_entries.induct)
  case (1 d outf)
  from 1(3) obtain p es where d: "d = Dir p es" by blast
  from 1(2) d have "\<forall>name \<in> set (sort (map fst es)). \<exists>nd. map_of es name = Some nd \<and> packable nd"
    using packable_lookup [of es] by auto
  from 1(1) [of es, OF _ this] d show ?case
    by (simp add: by_name_Dir del: by_name.simps)
next
  case (2 es this_dir this_count outf)
  then show ?case by simp
next
  case (3 es name names this_dir this_count outf)
  from 3(5) obtain nd where nd: "map_of es name = Some nd" "packable nd" by auto
  from 3(5) have rest: "\<forall>name \<in> set names. \<exists>nd. map_of es name = Some nd \<and> packable nd"
    by simp
  show ?case
  proof (cases nd)
    case (File p c)
    have rl: "read_loop (1024 * 1024) c [] [] = (c, c)"
      using read_loop_eq [of "1024 * 1024" c "[]" "[]"] by simp
    from 3(2) [OF nd(1) refl, of c c c, OF _ _ _ _ rest] File nd rl
    show ?thesis
      by (simp add: Let_def WritePair_def WriteChunk_def del: read_loop.simps)
  next
    case (Symlink t)
    from 3(1) [OF nd(1) refl _ _ rest] Symlink nd
    show ?thesis
      by (simp add: Let_def WritePair_def WriteChunk_def)
  next
    case (Dir p es')
    have pk: "packable nd" "\<exists>p es. nd = Dir p es" using nd Dir by auto
    note inner = 3(3) [OF nd(1) refl _ _ _ pk]
    have inner': "PackTree_rec nd (WriteChunk (WritePair outf ''>'' name) []) =
       (Inr (node_obj (by_name nd), count_entries (children (by_name nd))),
        WriteChunk (WritePair outf ''>'' name) [] @ entries_blobs (children (by_name nd)))"
      using inner Dir by (simp del: by_name.simps)
    from 3(4) [OF nd(1) refl _ _ _ inner' [symmetric] refl refl rest] Dir nd inner'
    show ?thesis
      by (simp add: Let_def WritePair_def WriteChunk_def by_name_Dir del: by_name.simps)
  next
    case (Special k p)
    with nd show ?thesis by simp
  qed
qed

subsection \<open>The packer at the top level, and counting nodes\<close>

lemma PackTree_correct:
  "packable (Dir p es) \<Longrightarrow>
   PackTree (Dir p es) outf =
     (Inr (sha1_hexdigest (manifest_of (walk es (sort (map fst es)))),
           count_entries (walk es (sort (map fst es)))),
      outf @ [''dfo--'', ''> .'', []] @ entries_blobs (walk es (sort (map fst es)))
        @ [''< .'', manifest_of (walk es (sort (map fst es))),
           sha1_hexdigest (manifest_of (walk es (sort (map fst es))))])"
  using pack_correct(1) [of "Dir p es"
      "WriteChunk (WritePair (WriteChunk outf ''dfo--'') ''>'' ''.'') []"]
  by (simp add: PackTree_def by_name_Dir WriteChunk_def WritePair_def
      del: by_name.simps PackTree_rec.simps)

lemma count_entries_sum: "count_entries es = sum_list (map (\<lambda>e. count_nodes (snd e)) es)"
  by (induction es) auto

lemma count_dir_entries_sum: "count_dir_entries es = sum_list (map (\<lambda>e. count_dirs (snd e)) es)"
  by (induction es) auto

lemma sum_list_sort: "sum_list (map g (sort xs)) = sum_list (map (g :: string \<Rightarrow> nat) xs)"
proof -
  have "mset (map g (sort xs)) = mset (map g xs)" by simp
  then show ?thesis by (metis sum_mset_sum_list)
qed

lemma the_map_of_distinct:
  "distinct (map fst es) \<Longrightarrow> (n, nd) \<in> set es \<Longrightarrow> the (map_of es n) = nd"
  by simp

lemma sum_over_walk:
  assumes d: "distinct (map fst es)"
    and eq: "\<And>n nd. (n, nd) \<in> set es \<Longrightarrow> g (by_name nd) = (h nd :: nat)"
  shows "sum_list (map (\<lambda>e. g (snd e)) (walk es (sort (map fst es))))
       = sum_list (map (\<lambda>e. h (snd e)) es)"
proof -
  have "sum_list (map (\<lambda>e. g (snd e)) (walk es (sort (map fst es))))
      = sum_list (map (\<lambda>n. g (by_name (the (map_of es n)))) (sort (map fst es)))"
    by (simp add: walk_def comp_def)
  also have "\<dots> = sum_list (map (\<lambda>n. g (by_name (the (map_of es n)))) (map fst es))"
    by (rule sum_list_sort)
  also have "\<dots> = sum_list (map (\<lambda>e. h (snd e)) es)"
    unfolding map_map comp_def
    by (rule arg_cong [where f = sum_list], rule map_cong [OF refl])
       (use d eq in \<open>auto simp: the_map_of_distinct\<close>)
  finally show ?thesis .
qed

lemma count_by_name:
  "distinct_names d \<Longrightarrow> count_nodes (by_name d) = count_nodes d \<and> count_dirs (by_name d) = count_dirs d"
proof (induction d rule: by_name.induct)
  case (1 p es)
  have ih: "\<And>n nd. (n, nd) \<in> set es \<Longrightarrow>
      count_nodes (by_name nd) = count_nodes nd \<and> count_dirs (by_name nd) = count_dirs nd"
  proof -
    fix n nd assume m: "(n, nd) \<in> set es"
    with 1(2) have "the (map_of es n) = nd" "distinct_names nd" by auto
    with 1(1) [of n] m show "count_nodes (by_name nd) = count_nodes nd \<and>
        count_dirs (by_name nd) = count_dirs nd"
      by force
  qed
  from 1(2) have d: "distinct (map fst es)" by simp
  show ?case
    using sum_over_walk [OF d, of count_nodes count_nodes] sum_over_walk [OF d, of count_dirs count_dirs] ih
    by (simp add: by_name_Dir count_entries_sum count_dir_entries_sum del: by_name.simps)
qed simp_all

lemma packable_by_name: "packable d \<Longrightarrow> packable (by_name d)"
proof (induction d rule: by_name.induct)
  case (1 p es)
  have "\<forall>name \<in> set (sort (map fst es)). packable (by_name (the (map_of es name)))"
  proof
    fix n assume n: "n \<in> set (sort (map fst es))"
    then obtain nd where nd: "map_of es n = Some nd" "packable nd"
      using packable_lookup [of es n] 1(2) by auto
    with 1(1) [OF n] show "packable (by_name (the (map_of es n)))" by simp
  qed
  then show ?case
    by (simp add: by_name_Dir walk_def del: by_name.simps)
qed simp_all

lemma length_blobs:
  "packable nd \<Longrightarrow> length (node_blobs name nd) = 2 * count_nodes nd + 2 * count_dirs nd"
  "\<forall>e \<in> set es. packable (snd e) \<Longrightarrow>
     length (entries_blobs es) = 2 * count_entries es + 2 * count_dir_entries es"
  by (induction name nd and es rule: node_blobs_entries_blobs.induct) auto

subsection \<open>The packer does not depend on the order of a listing\<close>

lemma same_tree_st_mode: "same_tree d d' \<Longrightarrow> st_mode d' = st_mode d"
  by (induction rule: same_tree.induct) simp_all

lemma lookup_in_keys: "name \<in> set (map fst es) \<Longrightarrow> map_of es name = Some (the (map_of es name))"
  by (cases "map_of es name") (auto simp: map_of_eq_None_iff)

lemma pack_same_tree:
  "same_tree d d' \<Longrightarrow> PackTree_rec d outf = PackTree_rec d' outf"
  "(\<forall>name \<in> set names. \<exists>nd nd'. map_of es name = Some nd \<and> map_of es' name = Some nd'
       \<and> same_tree nd nd') \<Longrightarrow>
   pack_entries es names this_dir this_count outf = pack_entries es' names this_dir this_count outf"
proof (induction d outf and es names this_dir this_count outf arbitrary: d' and es'
       rule: PackTree_rec_pack_entries.induct)
  case (1 d outf)
  from 1(2) show ?case
  proof (cases rule: same_tree.cases)
    case (same_Dir es es' p)
    from same_Dir(3) have keys: "set (map fst es') = set (map fst es)"
      by (metis mset_eq_setD)
    from same_Dir(3) have srt: "sort (map fst es') = sort (map fst es)"
      by (metis properties_for_sort sorted_sort mset_sort)
    have "\<forall>name \<in> set (sort (map fst es)). \<exists>nd nd'. map_of es name = Some nd
        \<and> map_of es' name = Some nd' \<and> same_tree nd nd'"
    proof
      fix name assume "name \<in> set (sort (map fst es))"
      then have n: "name \<in> set (map fst es)" "name \<in> set (map fst es')"
        using keys by simp_all
      with same_Dir(4) lookup_in_keys [OF n(1)] lookup_in_keys [OF n(2)]
      show "\<exists>nd nd'. map_of es name = Some nd \<and> map_of es' name = Some nd' \<and> same_tree nd nd'"
        by blast
    qed
    from 1(1) [of es es', OF _ this] same_Dir srt show ?thesis by simp
  qed simp_all
next
  case (2 es this_dir this_count outf)
  then show ?case by simp
next
  case (3 es name names this_dir this_count outf)
  from 3(5) obtain nd nd' where nd: "map_of es name = Some nd" "map_of es' name = Some nd'"
    "same_tree nd nd'" by auto
  from 3(5) have rest: "\<forall>name \<in> set names. \<exists>nd nd'. map_of es name = Some nd
      \<and> map_of es' name = Some nd' \<and> same_tree nd nd'" by simp
  have m: "st_mode nd' = st_mode nd" using nd(3) by (rule same_tree_st_mode)
  show ?case
  proof (cases nd)
    case (File p c)
    with nd(3) have nd': "nd' = File p c" by (auto elim: same_tree.cases)
    have rl: "read_loop (1024 * 1024) c [] [] = (c, c)"
      using read_loop_eq [of "1024 * 1024" c "[]" "[]"] by simp
    from 3(2) [OF nd(1) refl, of c c c es', OF _ _ _ _ rest] File nd nd' rl
    show ?thesis
      by (simp add: Let_def del: read_loop.simps)
  next
    case (Symlink t)
    with nd(3) have nd': "nd' = Symlink t" by (auto elim: same_tree.cases)
    from 3(1) [OF nd(1) refl _ _ rest] Symlink nd nd'
    show ?thesis
      by (simp add: Let_def)
  next
    case (Dir p es1)
    with nd(3) obtain es1' where nd': "nd' = Dir p es1'" by (auto elim: same_tree.cases)
    let ?X = "WriteChunk (WritePair outf ''>'' name) []"
    have inner: "PackTree_rec (Dir p es1') ?X = PackTree_rec (Dir p es1) ?X"
      using 3(3) [OF nd(1) refl _ _ _ nd(3)] Dir nd' by simp
    have look: "map_of es name = Some (Dir p es1)" "map_of es' name = Some (Dir p es1')"
      using nd Dir nd' by simp_all
    show ?thesis
    proof (cases "PackTree_rec (Dir p es1) ?X")
      case (Pair r outf')
      show ?thesis
      proof (cases r)
        case (Inl e)
        have P1: "PackTree_rec (Dir p es1) ?X = (Inl e, outf')" using Pair Inl by simp
        show ?thesis
          by (simp add: Let_def look inner P1 del: PackTree_rec.simps)
      next
        case (Inr b)
        obtain obj node_count where b: "b = (obj, node_count)" by (cases b)
        have P1: "PackTree_rec (Dir p es1) ?X = (Inr (obj, node_count), outf')"
          using Pair Inr b by simp
        have P1': "(Inr (obj, node_count), outf') = PackTree_rec nd ?X"
          using P1 Dir by simp
        from 3(4) [OF nd(1) refl _ _ _ P1' refl refl rest] Dir
        have "pack_entries es names
                (this_dir @ [manifest_line (st_mode (Dir p es1)) ''D'' (sha1_hexdigest obj) name])
                (this_count + (node_count + 1)) (WriteChunk (WritePair outf' ''<'' name) obj)
            = pack_entries es' names
                (this_dir @ [manifest_line (st_mode (Dir p es1)) ''D'' (sha1_hexdigest obj) name])
                (this_count + (node_count + 1)) (WriteChunk (WritePair outf' ''<'' name) obj)"
          by simp
        then show ?thesis
          by (simp add: Let_def look inner P1 del: PackTree_rec.simps)
      qed
    qed
  next
    case (Special k p)
    with nd(3) have nd': "nd' = Special k p" by (auto elim: same_tree.cases)
    with Special nd show ?thesis
      by (cases k) (simp_all add: Let_def S_ISLNK_def S_ISREG_def S_ISDIR_def
          bit.conj_disj_distrib2 and.assoc)
  qed
qed

subsection \<open>What the unpacker builds, and the manifest loop on it\<close>

lemma created_entries_simps [simp]:
  "created_entries u pm [] = []"
  "created_entries u pm ((name, nd) # es) = (name, created u pm nd) # created_entries u pm es"
  by (simp_all add: created_entries_def)

lemma actual_of_simps [simp]:
  "actual_of [] = []"
  "actual_of ((name, nd) # es) = (name, sha1_hexdigest (node_obj nd)) # actual_of es"
  by (simp_all add: actual_of_def)

lemma manifest_of_lines: "manifest_of es = concat (map (\<lambda>d. d @ [LF]) (map line_of es))"
  by (induction es) (auto simp: line_of_def)

lemma node_type_chars: "SP \<notin> set (node_type nd)" "LF \<notin> set (node_type nd)" "CR \<notin> set (node_type nd)"
  by (cases nd; simp)+

lemma py_split_line_of:
  "py_split 3 (line_of (name, nd)) =
     [if is_exec nd then ''x'' else ''-'', node_type nd, sha1_hexdigest (node_obj nd), name]"
  using py_split_3 [of "if is_exec nd then ''x'' else ''-''" "node_type nd"
      "sha1_hexdigest (node_obj nd)" name]
  by (simp add: line_of_def manifest_line_def is_exec_def Let_def node_type_chars
      sha1_hexdigest_chars del: py_split.simps)

lemma line_of_no_break:
  "LF \<notin> set name \<Longrightarrow> CR \<notin> set name \<Longrightarrow>
   LF \<notin> set (line_of (name, nd)) \<and> CR \<notin> set (line_of (name, nd))"
  by (simp add: line_of_def manifest_line_def Let_def node_type_chars sha1_hexdigest_chars)

lemma splitlines_manifest_of:
  "\<forall>e \<in> set es. LF \<notin> set (fst e) \<and> CR \<notin> set (fst e) \<Longrightarrow>
   splitlines (manifest_of es) = map line_of es"
  unfolding manifest_of_lines
  by (rule splitlines_concat) (auto simp: line_of_no_break)

lemma update_append_fresh:
  "name \<notin> fst ` set pre \<Longrightarrow>
   AList.update name v (pre @ (name, x) # rest) = pre @ (name, v) # rest"
  by (induction pre) auto

lemma map_of_append_fresh:
  "name \<notin> fst ` set pre \<Longrightarrow> map_of (pre @ (name, x) # rest) name = Some x"
  by (induction pre) auto

lemma is_exec_File: "is_exec nd \<Longrightarrow> \<exists>p c. nd = File p c"
  by (cases nd) (simp_all add: is_exec_def)

lemma Pop_lines_manifest:
  assumes "distinct (map fst es)"
    and "\<forall>e \<in> set es. path_kind (fst e) = Component \<and> fst e \<notin> fst ` set pre"
  shows "Pop_lines dir_obj (map line_of es) expected
           (fs\<lparr>entries := pre @ created_entries u pm es\<rparr>)
       = (Inr (expected @ actual_of es), fs\<lparr>entries := pre @ unpacked_entries u pm es\<rparr>)"
  using assms
proof (induction es arbitrary: expected pre)
  case Nil
  then show ?case by simp
next
  case (Cons e es)
  obtain name nd where e: "e = (name, nd)" by (cases e)
  from Cons.prems e have fresh: "name \<notin> fst ` set pre" and comp: "path_kind name = Component"
    by auto
  let ?new = "if is_exec nd then add_x (created u pm nd) else created u pm nd"
  have nxt: "Pop_lines dir_obj (map line_of es) (expected @ [(name, sha1_hexdigest (node_obj nd))])
           (fs\<lparr>entries := (pre @ [(name, ?new)]) @ created_entries u pm es\<rparr>)
       = (Inr ((expected @ [(name, sha1_hexdigest (node_obj nd))]) @ actual_of es),
          fs\<lparr>entries := (pre @ [(name, ?new)]) @ unpacked_entries u pm es\<rparr>)"
    using Cons.prems e by (intro Cons.IH) auto
  show ?case
  proof (cases "is_exec nd")
    case True
    then obtain p c where f: "nd = File p c" using is_exec_File by blast
    have ls: "os_lstat name (fs\<lparr>entries := pre @ (name, created u pm nd) # created_entries u pm es\<rparr>)
                = Inr (st_mode (created u pm nd))"
      by (simp add: os_lstat_Component [OF comp] map_of_append_fresh [OF fresh] del: map_of_append)
    have ch: "os_chmod name (st_mode (created u pm nd) OR 73)
                (fs\<lparr>entries := pre @ (name, created u pm nd) # created_entries u pm es\<rparr>)
              = (Inr (), fs\<lparr>entries := pre @ (name, add_x (created u pm nd)) # created_entries u pm es\<rparr>)"
      using f os_chmod_Component [OF comp, of
          "fs\<lparr>entries := pre @ (name, created u pm nd) # created_entries u pm es\<rparr>"
          "created u pm nd" "st_mode (created u pm nd) OR 73"]
      by (simp add: map_of_append_fresh [OF fresh] update_append_fresh [OF fresh]
          add_x_def del: map_of_append)
    from nxt True show ?thesis
      by (simp add: e py_split_line_of ls ch del: py_split.simps)
  next
    case False
    with nxt show ?thesis
      by (simp add: e py_split_line_of del: py_split.simps)
  qed
qed

subsection \<open>Single steps of the unpacker\<close>

lemma py_split_op:
  "py_split 1 (CHR ''>'' # SP # name) = [''>'', name]"
  "py_split 1 (CHR ''<'' # SP # name) = [''<'', name]"
  "py_split 1 (CHR ''F'' # SP # name) = [''F'', name]"
  "py_split 1 (CHR ''L'' # SP # name) = [''L'', name]"
  by simp_all

lemma map_of_fresh: "name \<notin> fst ` set es \<Longrightarrow> map_of es name = None"
  by (simp add: map_of_eq_None_iff)

lemma takeWhile_fresh:
  "name \<notin> fst ` set es \<Longrightarrow> takeWhile (\<lambda>e. fst e \<noteq> name) (es @ [(name, x)]) = es"
  by (induction es) auto

lemma dropWhile_fresh:
  "name \<notin> fst ` set es \<Longrightarrow> dropWhile (\<lambda>e. fst e \<noteq> name) (es @ [(name, x)]) = [(name, x)]"
  by (induction es) auto

lemma mkdir_chdir_fresh:
  assumes "path_kind name = Component" and "name \<notin> fst ` set (entries fs)"
  shows "MakeOneDir name fs
           = (Inr (), fs\<lparr>entries := entries fs
                                     @ [(name, Dir (new_dir_mode (umask fs) (cwd_mode fs)) [])]\<rparr>)"
    and "os_chdir name (fs\<lparr>entries := entries fs
                                    @ [(name, Dir (new_dir_mode (umask fs) (cwd_mode fs)) [])]\<rparr>)
           = (Inr (), fs\<lparr>entries := [], cwd_mode := new_dir_mode (umask fs) (cwd_mode fs),
                          above := Frame name (cwd_mode fs) (entries fs) [] # above fs\<rparr>)"
  using assms
  by (simp_all add: MakeOneDir_def os_mkdir_Component os_chdir_Component down_def map_of_fresh
      takeWhile_fresh dropWhile_fresh map_add_def)

text \<open>A directory that is there already is entered as it is.\<close>

lemma mkdir_chdir_existing:
  assumes "path_kind name = Component" and "map_of (entries fs) name = Some (Dir m es0)"
  shows "MakeOneDir name fs = (Inr (), fs)"
    and "os_chdir name fs = (Inr (), down name m es0 fs)"
  using assms
  by (simp_all add: MakeOneDir_def os_mkdir_Component os_chdir_Component)

lemma chdir_up_frame:
  "above fs = Frame name pmode before after # frames \<Longrightarrow>
   os_chdir ''..'' fs =
     (Inr (), fs\<lparr>entries := before @ (name, Dir (cwd_mode fs) (entries fs)) # after,
                  cwd_mode := pmode, above := frames\<rparr>)"
  by (simp add: os_chdir_up up_def)

lemma open_write_fresh:
  "path_kind name = Component \<Longrightarrow> name \<notin> fst ` set (entries fs) \<Longrightarrow>
   open_write name contents fs
     = (Inr (), fs\<lparr>entries := entries fs @ [(name, File (438 AND NOT (umask fs)) contents)]\<rparr>)"
  by (simp add: open_write_Component map_of_fresh)

lemma os_symlink_fresh:
  "path_kind name = Component \<Longrightarrow> name \<notin> fst ` set (entries fs) \<Longrightarrow> t \<noteq> [] \<Longrightarrow> NUL \<notin> set t \<Longrightarrow>
   os_symlink t name fs = (Inr (), fs\<lparr>entries := entries fs @ [(name, Symlink t)]\<rparr>)"
  by (simp add: os_symlink_Component map_of_fresh)

lemma Pop_manifest:
  assumes "distinct (map fst es)"
    and "\<forall>e \<in> set es. path_kind (fst e) = Component \<and> LF \<notin> set (fst e) \<and> CR \<notin> set (fst e)"
    and "entries fs = created_entries (umask fs) (cwd_mode fs) es"
  shows "Pop \<lparr>current = Some (actual_of es), stack = st @ [cur, actual_of es]\<rparr> (manifest_of es) fs
       = (Inr \<lparr>current = Some cur, stack = st @ [cur]\<rparr>,
          fs\<lparr>entries := unpacked_entries (umask fs) (cwd_mode fs) es\<rparr>)"
proof -
  have sl: "splitlines (manifest_of es) = map line_of es"
    using assms(2) by (intro splitlines_manifest_of) auto
  have "Pop_lines (manifest_of es) (map line_of es) [] (fs\<lparr>entries := [] @ created_entries (umask fs) (cwd_mode fs) es\<rparr>)
      = (Inr ([] @ actual_of es), fs\<lparr>entries := [] @ unpacked_entries (umask fs) (cwd_mode fs) es\<rparr>)"
    using assms(1,2) by (intro Pop_lines_manifest) auto
  moreover have "fs\<lparr>entries := [] @ created_entries (umask fs) (cwd_mode fs) es\<rparr> = fs"
    using assms(3) by simp
  ultimately have pl: "Pop_lines (manifest_of es) (map line_of es) [] fs
      = (Inr (actual_of es), fs\<lparr>entries := unpacked_entries (umask fs) (cwd_mode fs) es\<rparr>)"
    by simp
  have bl: "butlast (st @ [cur, actual_of es]) = st @ [cur]"
    by (simp add: butlast_append)
  show ?thesis
    by (simp add: Pop_def sl pl bl)
qed

subsection \<open>The unpacker on the stream of a tree\<close>

lemma OnEntry_top:
  "OnEntry \<lparr>current = Some cur, stack = st @ [cur]\<rparr> name checksum
     = Inr \<lparr>current = Some (cur @ [(name, checksum)]), stack = st @ [cur @ [(name, checksum)]]\<rparr>"
  by (simp add: OnEntry_def)

lemma unpack_stream:
  "unpackable nd \<Longrightarrow> path_kind name = Component \<Longrightarrow> name \<notin> fst ` set (entries fs) \<Longrightarrow>
   0 < level \<Longrightarrow>
   unpack_loop \<lparr>current = Some cur, stack = st @ [cur]\<rparr> level (node_blobs name nd @ rest) fs
   = unpack_loop \<lparr>current = Some (cur @ [(name, sha1_hexdigest (node_obj nd))]),
                  stack = st @ [cur @ [(name, sha1_hexdigest (node_obj nd))]]\<rparr> level rest
       (fs\<lparr>entries := entries fs @ [(name, created (umask fs) (cwd_mode fs) nd)]\<rparr>)"
  "distinct (map fst es) \<Longrightarrow>
   (\<forall>e \<in> set es. path_kind (fst e) = Component \<and> unpackable (snd e)
                   \<and> fst e \<notin> fst ` set (entries fs)) \<Longrightarrow>
   0 < level \<Longrightarrow>
   unpack_loop \<lparr>current = Some cur, stack = st @ [cur]\<rparr> level (entries_blobs es @ rest) fs
   = unpack_loop \<lparr>current = Some (cur @ actual_of es), stack = st @ [cur @ actual_of es]\<rparr>
       level rest (fs\<lparr>entries := entries fs @ created_entries (umask fs) (cwd_mode fs) es\<rparr>)"
proof (induction name nd and es arbitrary: level rest fs cur st and level rest fs cur st
       rule: node_blobs_entries_blobs.induct)
  case (1 name p c)
  then show ?case
    by (simp add: open_write_fresh OnEntry_top del: py_split.simps One_nat_def add: py_split_op)
next
  case (2 name t)
  then show ?case
    by (simp add: os_symlink_fresh OnEntry_top del: py_split.simps One_nat_def add: py_split_op)
next
  case (3 name p es)
  let ?m = "new_dir_mode (umask fs) (cwd_mode fs)"
  let ?fs1 = "fs\<lparr>entries := [], cwd_mode := ?m,
                  above := Frame name (cwd_mode fs) (entries fs) [] # above fs\<rparr>"
  let ?fs2 = "?fs1\<lparr>entries := entries ?fs1 @ created_entries (umask ?fs1) (cwd_mode ?fs1) es\<rparr>"
  let ?v2 = "\<lparr>current = Some ([] @ actual_of es), stack = (st @ [cur]) @ [[] @ actual_of es]\<rparr>"
  let ?close = "[''< '' @ name, manifest_of es] @ rest"
  from 3(2) have d: "distinct (map fst es)"
    and es: "\<forall>e \<in> set es. path_kind (fst e) = Component \<and> LF \<notin> set (fst e) \<and> CR \<notin> set (fst e)"
    and es': "\<forall>e \<in> set es. path_kind (fst e) = Component \<and> unpackable (snd e)
              \<and> fst e \<notin> fst ` set (entries ?fs1)"
    by auto
  have ne: "name \<noteq> ''.''" using Component_facts [OF 3(3)] by simp
  have lv: "0 < level + 1" using 3(5) by simp
  have "unpack_loop \<lparr>current = Some cur, stack = st @ [cur]\<rparr> level
          (node_blobs name (Dir p es) @ rest) fs
      = unpack_loop (Push \<lparr>current = Some cur, stack = st @ [cur]\<rparr>) (level + 1)
          (entries_blobs es @ ?close) ?fs1"
    using ne mkdir_chdir_fresh [OF 3(3) 3(4)]
    by (simp del: py_split.simps One_nat_def add: py_split_op)
  also have "Push \<lparr>current = Some cur, stack = st @ [cur]\<rparr>
      = \<lparr>current = Some [], stack = (st @ [cur]) @ [[]]\<rparr>"
    by (simp add: Push_def)
  finally have step1: "unpack_loop \<lparr>current = Some cur, stack = st @ [cur]\<rparr> level
          (node_blobs name (Dir p es) @ rest) fs
      = unpack_loop \<lparr>current = Some [], stack = (st @ [cur]) @ [[]]\<rparr> (level + 1)
          (entries_blobs es @ ?close) ?fs1" .
    have step2: "unpack_loop \<lparr>current = Some [], stack = (st @ [cur]) @ [[]]\<rparr> (level + 1)
          (entries_blobs es @ ?close) ?fs1
        = unpack_loop ?v2 (level + 1) ?close ?fs2"
      by (rule 3(1) [OF d es' lv])
    have fs2: "?fs2 = fs\<lparr>entries := created_entries (umask fs) ?m es, cwd_mode := ?m,
                  above := Frame name (cwd_mode fs) (entries fs) [] # above fs\<rparr>"
      by simp
    have pop: "Pop \<lparr>current = Some (actual_of es), stack = st @ [cur, actual_of es]\<rparr>
                 (manifest_of es) ?fs2
               = (Inr \<lparr>current = Some cur, stack = st @ [cur]\<rparr>,
                  ?fs2\<lparr>entries := unpacked_entries (umask ?fs2) (cwd_mode ?fs2) es\<rparr>)"
      by (rule Pop_manifest [OF d es]) simp
    have up: "os_chdir ''..'' (?fs2\<lparr>entries := unpacked_entries (umask ?fs2) (cwd_mode ?fs2) es\<rparr>)
        = (Inr (), fs\<lparr>entries := entries fs @ [(name, Dir ?m (unpacked_entries (umask fs) ?m es))]\<rparr>)"
      by (simp add: chdir_up_frame)
    have step3: "unpack_loop ?v2 (level + 1) ?close ?fs2
        = unpack_loop \<lparr>current = Some (cur @ [(name, sha1_hexdigest (manifest_of es))]),
                        stack = st @ [cur @ [(name, sha1_hexdigest (manifest_of es))]]\<rparr> level rest
            (fs\<lparr>entries := entries fs @ [(name, Dir ?m (unpacked_entries (umask fs) ?m es))]\<rparr>)"
      using pop up ne 3(5)
      by (simp del: py_split.simps One_nat_def add: py_split_op OnEntry_top)
    from step1 step2 step3 show ?case by simp
next
  case (4 name k p)
  then show ?case by simp
next
  case 5
  then show ?case by simp
next
  case (6 name nd es)
  let ?e = "(name, sha1_hexdigest (node_obj nd))"
  let ?fs1 = "fs\<lparr>entries := entries fs @ [(name, created (umask fs) (cwd_mode fs) nd)]\<rparr>"
  from 6(3,4) have a: "unpackable nd" "path_kind name = Component"
    "name \<notin> fst ` set (entries fs)" "distinct (map fst es)"
    and b: "\<forall>e \<in> set es. path_kind (fst e) = Component \<and> unpackable (snd e)
              \<and> fst e \<notin> fst ` set (entries ?fs1)"
    by (auto simp: image_iff)
  have "unpack_loop \<lparr>current = Some cur, stack = st @ [cur]\<rparr> level
          (entries_blobs ((name, nd) # es) @ rest) fs
      = unpack_loop \<lparr>current = Some (cur @ [?e]), stack = st @ [cur @ [?e]]\<rparr> level
          (entries_blobs es @ rest) ?fs1"
    using 6(1) [OF a(1,2,3) 6(5), of cur st "entries_blobs es @ rest"] by simp
  also have "\<dots> = unpack_loop \<lparr>current = Some ((cur @ [?e]) @ actual_of es),
                       stack = st @ [(cur @ [?e]) @ actual_of es]\<rparr> level rest
          (?fs1\<lparr>entries := entries ?fs1 @ created_entries (umask ?fs1) (cwd_mode ?fs1) es\<rparr>)"
    by (rule 6(2) [OF a(4) b 6(5)])
  finally show ?case by simp
qed

subsection \<open>Unpacking a whole stream\<close>

lemma Pop_manifest_root:
  assumes "distinct (map fst es)"
    and "\<forall>e \<in> set es. path_kind (fst e) = Component \<and> LF \<notin> set (fst e) \<and> CR \<notin> set (fst e)"
    and "entries fs = created_entries (umask fs) (cwd_mode fs) es"
  shows "Pop \<lparr>current = Some (actual_of es), stack = [actual_of es]\<rparr> (manifest_of es) fs
       = (Inr \<lparr>current = Some (actual_of es), stack = []\<rparr>,
          fs\<lparr>entries := unpacked_entries (umask fs) (cwd_mode fs) es\<rparr>)"
proof -
  have sl: "splitlines (manifest_of es) = map line_of es"
    using assms(2) by (intro splitlines_manifest_of) auto
  have "Pop_lines (manifest_of es) (map line_of es) [] (fs\<lparr>entries := [] @ created_entries (umask fs) (cwd_mode fs) es\<rparr>)
      = (Inr ([] @ actual_of es), fs\<lparr>entries := [] @ unpacked_entries (umask fs) (cwd_mode fs) es\<rparr>)"
    using assms(1,2) by (intro Pop_lines_manifest) auto
  moreover have "fs\<lparr>entries := [] @ created_entries (umask fs) (cwd_mode fs) es\<rparr> = fs"
    using assms(3) by simp
  ultimately have pl: "Pop_lines (manifest_of es) (map line_of es) [] fs
      = (Inr (actual_of es), fs\<lparr>entries := unpacked_entries (umask fs) (cwd_mode fs) es\<rparr>)"
    by simp
  show ?thesis
    by (simp add: Pop_def sl pl)
qed

text \<open>
  Unpacking a well-formed stream into a directory \<open>dir\<close> that is made, or found, empty:
  the header, the stream of a tree between the pair that opens and the pair that closes
  the root, and one more blob, which is returned whatever it is. Blobs after it are
  ignored.
\<close>

lemma UnpackTree_from:
  assumes "unpackable (Dir p es)"
    and "MakeOneDir dir fs = (Inr (), fs1)" and "os_chdir dir fs1 = (Inr (), fs2)"
    and "entries fs2 = []"
  shows "UnpackTree ([''dfo--'', ''> .'', []] @ entries_blobs es
                     @ [''< .'', manifest_of es, trailer] @ extra) dir fs
       = (Inr trailer, fs2\<lparr>entries := unpacked_entries (umask fs2) (cwd_mode fs2) es\<rparr>)"
proof -
  let ?fs2 = "fs2\<lparr>entries := entries fs2 @ created_entries (umask fs2) (cwd_mode fs2) es\<rparr>"
  let ?close = "[''< .'', manifest_of es, trailer] @ extra"
  from assms(1,4) have d: "distinct (map fst es)"
    and es: "\<forall>e \<in> set es. path_kind (fst e) = Component \<and> LF \<notin> set (fst e) \<and> CR \<notin> set (fst e)"
    and es': "\<forall>e \<in> set es. path_kind (fst e) = Component \<and> unpackable (snd e)
              \<and> fst e \<notin> fst ` set (entries fs2)"
    by auto
  have start: "UnpackTree ([''dfo--'', ''> .'', []] @ entries_blobs es @ ?close) dir fs
      = (case unpack_loop \<lparr>current = Some [], stack = [] @ [[]]\<rparr> 1 (entries_blobs es @ ?close) fs2 of
           (Inl e, fs3) \<Rightarrow> (Inl e, fs3)
         | (Inr [], fs3) \<Rightarrow> (Inl (RuntimeError ExpectedRootChecksumGotEOF), fs3)
         | (Inr (root_checksum # in_file2), fs3) \<Rightarrow> (Inr root_checksum, fs3))"
    using assms(2,3)
    by (simp add: UnpackTree_def Verifier_init_def Push_def del: py_split.simps One_nat_def
        add: py_split_op)
  have body: "unpack_loop \<lparr>current = Some [], stack = [] @ [[]]\<rparr> 1 (entries_blobs es @ ?close) fs2
      = unpack_loop \<lparr>current = Some ([] @ actual_of es), stack = [] @ [[] @ actual_of es]\<rparr> 1
          ?close ?fs2"
    by (rule unpack_stream(2) [OF d es']) simp
  have pop: "Pop \<lparr>current = Some (actual_of es), stack = [actual_of es]\<rparr> (manifest_of es) ?fs2
       = (Inr \<lparr>current = Some (actual_of es), stack = []\<rparr>,
          ?fs2\<lparr>entries := unpacked_entries (umask ?fs2) (cwd_mode ?fs2) es\<rparr>)"
    by (rule Pop_manifest_root [OF d es]) (simp add: assms(4))
  have close: "unpack_loop \<lparr>current = Some ([] @ actual_of es), stack = [] @ [[] @ actual_of es]\<rparr> 1
          ?close ?fs2
      = (Inr (trailer # extra), ?fs2\<lparr>entries := unpacked_entries (umask ?fs2) (cwd_mode ?fs2) es\<rparr>)"
    using pop
    by (simp add: OnEntry_def del: py_split.simps One_nat_def add: py_split_op)
  show ?thesis
    by (simp only: start body close) simp
qed

lemma UnpackTree_stream:
  assumes "unpackable (Dir p es)"
    and "path_kind dir = Component" and "dir \<notin> fst ` set (entries fs)"
  shows "UnpackTree ([''dfo--'', ''> .'', []] @ entries_blobs es
                     @ [''< .'', manifest_of es, trailer] @ extra) dir fs
       = (Inr trailer,
          fs\<lparr>entries := unpacked_entries (umask fs) (new_dir_mode (umask fs) (cwd_mode fs)) es,
               cwd_mode := new_dir_mode (umask fs) (cwd_mode fs),
               above := Frame dir (cwd_mode fs) (entries fs) [] # above fs\<rparr>)"
  using UnpackTree_from [OF assms(1) mkdir_chdir_fresh [OF assms(2,3)], of trailer extra]
  by simp

text \<open>The same into a directory \<open>dir\<close> that exists and is empty: it keeps its permission
  bits and its place.\<close>

lemma UnpackTree_stream_empty_dir:
  assumes "unpackable (Dir p es)"
    and "path_kind dir = Component" and "map_of (entries fs) dir = Some (Dir m [])"
  shows "UnpackTree ([''dfo--'', ''> .'', []] @ entries_blobs es
                     @ [''< .'', manifest_of es, trailer] @ extra) dir fs
       = (Inr trailer, (down dir m [] fs)\<lparr>entries := unpacked_entries (umask fs) m es\<rparr>)"
  using UnpackTree_from [OF assms(1) mkdir_chdir_existing [OF assms(2,3)], of trailer extra]
  by (simp add: down_def)

lemma unpackable_lookup:
  assumes "unpackable (Dir p es)" and "name \<in> set (map fst es)"
  shows "path_kind name = Component \<and> LF \<notin> set name \<and> CR \<notin> set name
         \<and> unpackable (the (map_of es name))"
proof -
  from assms(2) obtain nd where nd: "map_of es name = Some nd"
    by (cases "map_of es name") (auto simp: map_of_eq_None_iff)
  then have "(name, nd) \<in> set es" by (rule map_of_SomeD)
  with assms(1) nd show ?thesis by auto
qed

lemma unpackable_by_name: "unpackable d \<Longrightarrow> unpackable (by_name d)"
proof (induction d rule: by_name.induct)
  case (1 p es)
  have "\<forall>e \<in> set (walk es (sort (map fst es))).
          path_kind (fst e) = Component \<and> LF \<notin> set (fst e) \<and> CR \<notin> set (fst e)
          \<and> unpackable (snd e)"
  proof
    fix e assume "e \<in> set (walk es (sort (map fst es)))"
    then obtain name where n: "name \<in> set (sort (map fst es))"
      and e: "e = (name, by_name (the (map_of es name)))"
      by (auto simp: walk_def)
    from n have n': "name \<in> set (map fst es)" by simp
    from unpackable_lookup [OF 1(2) n'] 1(1) [OF n] e
    show "path_kind (fst e) = Component \<and> LF \<notin> set (fst e) \<and> CR \<notin> set (fst e)
          \<and> unpackable (snd e)"
      by simp
  qed
  moreover have "map fst (walk es (sort (map fst es))) = sort (map fst es)"
    by (simp add: walk_def comp_def)
  moreover from 1(2) have "distinct (map fst es)" by simp
  ultimately show ?case
    by (simp add: by_name_Dir del: by_name.simps)
qed simp_all

subsection \<open>What is kept of a tree\<close>

lemma unpacked_entries_map:
  "unpacked_entries u pm es = map (\<lambda>e. (fst e, unpacked u pm (snd e))) es"
  by (induction es) (auto simp: unpacked_def)

lemma map_of_map_key:
  "name \<in> set names \<Longrightarrow> map_of (map (\<lambda>n. (n, f n)) names) name = Some (f name)"
  by (induction names) auto

lemma is_exec_File_iff: "is_exec (File p c) \<longleftrightarrow> p AND 64 \<noteq> 0"
proof -
  have "((32768 OR (p AND 4095)) AND 4095) AND (64::int) = p AND 64"
    by (simp add: bit.conj_disj_distrib2 and.assoc)
  then show ?thesis by (simp add: is_exec_def S_IMODE_def)
qed

lemma exec_bit_kept:
  "((((438 AND NOT u) AND 4095) OR 73) AND (64::int) \<noteq> 0)"
  "(438 AND NOT u) AND (64::int) = 0"
proof -
  have "(((438 AND NOT u) AND 4095) OR 73) AND (64::int) = (((438 AND NOT u) AND 4095) AND 64) OR 64"
    by (simp add: bit.conj_disj_distrib2)
  also have "\<dots> = 64"
    by (simp add: and.assoc and.commute [of 438])
  finally show "((((438 AND NOT u) AND 4095) OR 73) AND (64::int) \<noteq> 0)" by simp
  show "(438 AND NOT u) AND (64::int) = 0"
    by (simp add: and.assoc and.commute [of 438])
qed

lemma same_tracked_unpacked: "unpackable d \<Longrightarrow> same_tracked d (unpacked u pm (by_name d))"
proof (induction d arbitrary: pm rule: by_name.induct)
  case (1 p es)
  let ?names = "sort (map fst es)"
  let ?m = "new_dir_mode u pm"
  let ?es' = "map (\<lambda>n. (n, unpacked u ?m (by_name (the (map_of es n))))) ?names"
  have u: "unpacked u pm (by_name (Dir p es)) = Dir ?m ?es'"
    by (simp add: unpacked_def is_exec_def unpacked_entries_map comp_def)
  have "mset (map fst es) = mset (map fst ?es')"
    by (simp add: comp_def)
  moreover have "\<forall>name \<in> set (map fst es).
      same_tracked (the (map_of es name)) (the (map_of ?es' name))"
  proof
    fix name assume n: "name \<in> set (map fst es)"
    then have n': "name \<in> set ?names" by simp
    have "unpackable (the (map_of es name))"
      using unpackable_lookup [OF 1(2) n] by simp
    from 1(1) [OF n' this, of ?m]
      map_of_map_key [OF n', of "\<lambda>n. unpacked u ?m (by_name (the (map_of es n)))"]
    show "same_tracked (the (map_of es name)) (the (map_of ?es' name))" by simp
  qed
  ultimately have "same_tracked (Dir p es) (Dir ?m ?es')"
    by (rule tracked_Dir)
  with u show ?case by simp
next
  case (2 p c)
  show ?case
    by (auto simp: unpacked_def is_exec_File_iff add_x_simps exec_bit_kept
        intro!: same_tracked.intros)
next
  case (3 t)
  show ?case by (simp add: unpacked_def is_exec_def same_tracked.intros)
next
  case (4 k p)
  then show ?case by simp
qed

lemma unpackable_packable: "unpackable d \<Longrightarrow> packable d"
  by (induction d rule: packable.induct) auto

subsection \<open>Packing and then unpacking\<close>

lemma splitlines_from_skip:
  "LF \<notin> set l \<Longrightarrow> CR \<notin> set l \<Longrightarrow>
   splitlines_from cur (l @ rest) = splitlines_from (rev l @ cur) rest"
  by (induction l arbitrary: cur) auto

lemma unpackable_iff: "unpackable d \<longleftrightarrow> representable d \<and> no_carriage_return d"
  by (induction d rule: unpackable.induct) auto

lemma same_tracked_root:
  assumes "unpackable (Dir p es)"
  shows "same_tracked (Dir p es) (Dir m' (unpacked_entries u m (children (by_name (Dir p es)))))"
proof -
  let ?names = "sort (map fst es)"
  let ?es' = "map (\<lambda>n. (n, unpacked u m (by_name (the (map_of es n))))) ?names"
  have e: "unpacked_entries u m (children (by_name (Dir p es))) = ?es'"
    by (simp add: unpacked_entries_map comp_def)
  have "mset (map fst es) = mset (map fst ?es')"
    by (simp add: comp_def)
  moreover have "\<forall>name \<in> set (map fst es).
      same_tracked (the (map_of es name)) (the (map_of ?es' name))"
  proof
    fix name assume n: "name \<in> set (map fst es)"
    then have n': "name \<in> set ?names" by simp
    have "unpackable (the (map_of es name))"
      using unpackable_lookup [OF assms n] by simp
    from same_tracked_unpacked [OF this, of u m]
      map_of_map_key [OF n', of "\<lambda>n. unpacked u m (by_name (the (map_of es n)))"]
    show "same_tracked (the (map_of es name)) (the (map_of ?es' name))" by simp
  qed
  ultimately have "same_tracked (Dir p es) (Dir m' ?es')"
    by (rule tracked_Dir)
  with e show ?thesis by simp
qed

lemma map_of_append_new:
  "map_of es name = None \<Longrightarrow> map_of (es @ [(name, y)]) = (map_of es)(name \<mapsto> y)"
  by (rule ext) (auto simp: map_add_def split: option.splits)

lemma map_of_replace_first:
  "map_of es name = Some x \<Longrightarrow>
   map_of (takeWhile (\<lambda>e. fst e \<noteq> name) es @ (name, y) # tl (dropWhile (\<lambda>e. fst e \<noteq> name) es))
     = (map_of es)(name \<mapsto> y)"
  by (induction es) (auto simp: fun_upd_twist)

text \<open>
  Packing a tree and unpacking the stream into a destination that is absent or empty.
  The working directory is then the destination, which holds the tree as the packer
  walked it, with the permission bits that the unpacker gives; \<open>up\<close> is the directory
  the unpacker was started in, where nothing but the destination has changed.
\<close>

lemma round_trip_lemma:
  assumes "unpackable (Dir p es)"
    and "path_kind dir = Component" and "absent_or_empty fs dir"
  shows "\<exists>checksum n body fs'.
           PackTree (Dir p es) [] = (Inr (checksum, n), body @ [checksum])
         \<and> (\<forall>t. UnpackTree (body @ [t]) dir fs = (Inr t, fs'))
         \<and> same_tracked (Dir p es) (Dir (cwd_mode fs') (entries fs'))
         \<and> entries fs' = unpacked_entries (umask fs) (cwd_mode fs') (children (by_name (Dir p es)))
         \<and> map_of (entries (up fs')) = (map_of (entries fs))(dir \<mapsto> Dir (cwd_mode fs') (entries fs'))
         \<and> cwd_mode (up fs') = cwd_mode fs \<and> above (up fs') = above fs \<and> umask fs' = umask fs
         \<and> cwd_mode fs' = (case map_of (entries fs) dir of
                              Some (Dir m es0) \<Rightarrow> m
                            | _ \<Rightarrow> new_dir_mode (umask fs) (cwd_mode fs))"
proof -
  let ?E = "walk es (sort (map fst es))"
  let ?u = "umask fs"
  let ?body = "[''dfo--'', ''> .'', []] @ entries_blobs ?E @ [''< .'', manifest_of ?E]"
  have E: "children (by_name (Dir p es)) = ?E"
    by (simp add: by_name_Dir del: by_name.simps)
  have pk: "packable (Dir p es)" using assms(1) by (rule unpackable_packable)
  have "unpackable (by_name (Dir p es))" using assms(1) by (rule unpackable_by_name)
  then have un: "unpackable (Dir p ?E)" by (simp add: by_name_Dir del: by_name.simps)
  have pack: "PackTree (Dir p es) [] =
      (Inr (sha1_hexdigest (manifest_of ?E), count_entries ?E),
       ?body @ [sha1_hexdigest (manifest_of ?E)])"
    using PackTree_correct [OF pk, of "[]"] by simp
  have st: "same_tracked (Dir p es) (Dir m' (unpacked_entries ?u m ?E))" for m m'
    using same_tracked_root [OF assms(1), of m' ?u m] by (simp only: E)
  show ?thesis
  proof (cases "map_of (entries fs) dir")
    case None
    let ?m = "new_dir_mode ?u (cwd_mode fs)"
    let ?fs' = "fs\<lparr>entries := unpacked_entries ?u ?m ?E, cwd_mode := ?m,
                    above := Frame dir (cwd_mode fs) (entries fs) [] # above fs\<rparr>"
    from None have fresh: "dir \<notin> fst ` set (entries fs)"
      by (simp add: map_of_eq_None_iff)
    have unpack: "\<forall>t. UnpackTree (?body @ [t]) dir fs = (Inr t, ?fs')"
    proof
      fix t
      show "UnpackTree (?body @ [t]) dir fs = (Inr t, ?fs')"
        using UnpackTree_stream [OF un assms(2) fresh, of t "[]"] by simp
    qed
    have rest: "map_of (entries (up ?fs')) = (map_of (entries fs))(dir \<mapsto> Dir (cwd_mode ?fs') (entries ?fs'))"
      "cwd_mode (up ?fs') = cwd_mode fs" "above (up ?fs') = above fs"
      using map_of_append_new [OF None] by (simp_all add: up_def)
    from pack unpack st [of ?m ?m] rest None show ?thesis
      by (intro exI [of _ "sha1_hexdigest (manifest_of ?E)"] exI [of _ "count_entries ?E"]
          exI [of _ ?body] exI [of _ ?fs']) (simp add: walk_def)
  next
    case (Some nd)
    with assms(3) obtain m where nd: "map_of (entries fs) dir = Some (Dir m [])"
      by (cases nd) (auto simp: absent_or_empty_def)
    let ?fs' = "(down dir m [] fs)\<lparr>entries := unpacked_entries ?u m ?E\<rparr>"
    have unpack: "\<forall>t. UnpackTree (?body @ [t]) dir fs = (Inr t, ?fs')"
    proof
      fix t
      show "UnpackTree (?body @ [t]) dir fs = (Inr t, ?fs')"
        using UnpackTree_stream_empty_dir [OF un assms(2) nd, of t "[]"] by simp
    qed
    have rest: "map_of (entries (up ?fs')) = (map_of (entries fs))(dir \<mapsto> Dir (cwd_mode ?fs') (entries ?fs'))"
      "cwd_mode (up ?fs') = cwd_mode fs" "above (up ?fs') = above fs"
      using map_of_replace_first [OF nd] by (simp_all add: up_def down_def)
    have cm: "cwd_mode ?fs' = m" "umask ?fs' = ?u" by (simp_all add: down_def)
    from pack unpack st [of m m] rest cm nd show ?thesis
      by (intro exI [of _ "sha1_hexdigest (manifest_of ?E)"] exI [of _ "count_entries ?E"]
          exI [of _ ?body] exI [of _ ?fs']) (simp add: walk_def)
  qed
qed

text \<open>
  The packer ends a manifest line with \<^verbatim>\<open>\n\<close>, and \<^verbatim>\<open>Pop\<close> reads the manifest
  with \<^verbatim>\<open>splitlines()\<close>, which ends a line at \<^verbatim>\<open>\r\<close> as well. So a name with a
  carriage return does not survive either: for the file \<^verbatim>\<open>a\rb\<close> the unpacker
  raises the same error as for a name with a newline.
\<close>

lemma unpack_carriage_return_name:
  "UnpackTree (snd (PackTree (Dir 493 [(''a'' @ [CR] @ ''b'', File 420 ''x'')]) [])) ''out''
        \<lparr>entries = [], cwd_mode = 493, above = [], umask = 18\<rparr>
       = (Inl (RuntimeError (InvalidDirectoryEntry ''b''
                 (''- F '' @ sha1_hexdigest ''x'' @ '' a'' @ [CR] @ ''b'' @ [LF]))),
          \<lparr>entries = [(''a'' @ [CR] @ ''b'', File 420 ''x'')], cwd_mode = 493,
            above = [Frame ''out'' 493 [] []], umask = 18\<rparr>)"
proof -
  let ?sha = "sha1_hexdigest ''x''"
  have sl: "splitlines (CHR ''-'' # SP # CHR ''F'' # SP # ?sha @ [SP, CHR ''a'', CR, CHR ''b'', LF])
      = [''- F '' @ ?sha @ '' a'', ''b'']"
    using splitlines_from_skip [of ?sha "rev ''- F ''" "[SP, CHR ''a'', CR, CHR ''b'', LF]"]
    by (simp add: splitlines_def sha1_hexdigest_chars)
  have sp: "py_split 3 (CHR ''-'' # SP # CHR ''F'' # SP # ?sha @ [SP, CHR ''a''])
      = [''-'', ''F'', ?sha, ''a'']"
    using py_split_3 [of "''-''" "''F''" ?sha "''a''"]
    by (simp add: sha1_hexdigest_chars del: py_split.simps)
  have sp2: "py_split 3 ''b'' = [''b'']"
    by (simp add: py_split_no_space)
  show ?thesis
    by (simp add: PackTree_correct manifest_line_def S_IMODE_def path_kind_def
        UnpackTree_def MakeOneDir_def os_mkdir_Component os_chdir_Component down_def
        new_dir_mode_def Verifier_init_def Push_def OnEntry_def open_write_Component Pop_def
        sl sp sp2 del: py_split.simps One_nat_def add: py_split_op)
qed

subsection \<open>Names of a manifest that lead elsewhere\<close>

text \<open>
  \<^verbatim>\<open>Pop\<close> passes the name of an \<^verbatim>\<open>x\<close> line to \<^verbatim>\<open>os.lstat\<close>, which does not
  follow a symbolic link, and then to \<^verbatim>\<open>os.chmod\<close>, which does. For a line that
  names a link the mode read is that of the link, \<^verbatim>\<open>0120777\<close>, and the file the
  link points to gets the bits \<^verbatim>\<open>0777\<close> (511); the link stays as it is. A name
  with a slash is a path: the bits of the file it leads to are set.
\<close>

lemma Pop_chmod_follows_link:
  "Pop \<lparr>current = Some [(''l'', ''0a'')], stack = [[(''l'', ''0a'')]]\<rparr>
       (''x L 0a l'' @ [LF])
       \<lparr>entries = [(''t'', File 384 ''s''), (''l'', Symlink ''t'')], cwd_mode = 493, above = [],
         umask = 18\<rparr>
   = (Inr \<lparr>current = Some [(''l'', ''0a'')], stack = []\<rparr>,
      \<lparr>entries = [(''t'', File 511 ''s''), (''l'', Symlink ''t'')], cwd_mode = 493, above = [],
        umask = 18\<rparr>)"
  by (simp add: Pop_def splitlines_def numeral_3_eq_3 os_lstat_Component os_chmod_def
      resolve_Component path_kind_def follow_path.simps from_root_def absolute_def
      trailing_slash_def components_def)

lemma Pop_chmod_path:
  "Pop \<lparr>current = Some [(''sub/f'', ''0a'')], stack = [[(''sub/f'', ''0a'')]]\<rparr>
       (''x F 0a sub/f'' @ [LF])
       \<lparr>entries = [(''sub'', Dir 493 [(''f'', File 420 ''s'')])], cwd_mode = 493, above = [],
         umask = 18\<rparr>
   = (Inr \<lparr>current = Some [(''sub/f'', ''0a'')], stack = []\<rparr>,
      \<lparr>entries = [(''sub'', Dir 493 [(''f'', File 493 ''s'')])], cwd_mode = 493, above = [],
        umask = 18\<rparr>)"
  by (simp add: Pop_def splitlines_def numeral_3_eq_3 os_lstat_def os_chmod_def resolve_def
      path_kind_def follow_path.simps from_root_def absolute_def trailing_slash_def
      components_def down_def up_def)


section \<open>The claims\<close>

text \<open>
  Claim C1 (corrected). The claim promises the round trip for every tree of regular
  files, directories and links, whatever the destination, and says that the result
  differs from the tree only in time stamps, owner, group and the permission bits that
  are not the owner's. Three inputs show what the format, by its design, does not do.

  A manifest is a text of lines, and the format (the comment at the head of the source:
  a name ``cannot contain newlines'') has no way to write a name with a newline: for
  the file \<^verbatim>\<open>a\nb\<close>, a valid name on a POSIX file system, the packer succeeds and
  the unpacker, having written the file, splits its manifest line in two and raises
  \<^verbatim>\<open>RuntimeError('Invalid directory entry ...')\<close>.

  Of the permission bits the format keeps one flag, whether the owner may execute a
  regular file (the comment in \<^verbatim>\<open>_PackTree\<close>: ``We ONLY care about the user's execute
  bit ... We also don't care if a file is read-only''): a file of mode \<^verbatim>\<open>0400\<close>
  (256) comes back as \<^verbatim>\<open>0644\<close> (420) under the mask \<^verbatim>\<open>022\<close>, so the owner's
  bits (\<^verbatim>\<open>0700 = 448\<close>) differ as well.

  And the unpacker writes into the destination as it finds it (\<^verbatim>\<open>_MakeOneDir\<close>
  swallows \<^verbatim>\<open>EEXIST\<close>): an entry that is there already stays, so the result has a
  name that the tree has not.
\<close>

theorem round_trip_counterexample:
  "packable (Dir 493 [(''a'' @ [LF] @ ''b'', File 420 ''x'')])
   \<and> path_kind (''a'' @ [LF] @ ''b'') = Component
   \<and> fst (PackTree (Dir 493 [(''a'' @ [LF] @ ''b'', File 420 ''x'')]) [])
       = Inr (sha1_hexdigest (''- F '' @ sha1_hexdigest ''x'' @ '' a'' @ [LF] @ ''b'' @ [LF]), 1)
   \<and> UnpackTree (snd (PackTree (Dir 493 [(''a'' @ [LF] @ ''b'', File 420 ''x'')]) [])) ''out''
        \<lparr>entries = [], cwd_mode = 493, above = [], umask = 18\<rparr>
       = (Inl (RuntimeError (InvalidDirectoryEntry ''b''
                 (''- F '' @ sha1_hexdigest ''x'' @ '' a'' @ [LF] @ ''b'' @ [LF]))),
          \<lparr>entries = [(''a'' @ [LF] @ ''b'', File 420 ''x'')], cwd_mode = 493,
            above = [Frame ''out'' 493 [] []], umask = 18\<rparr>)
   \<and> UnpackTree (snd (PackTree (Dir 493 [(''ro'', File 256 ''x'')]) [])) ''out''
        \<lparr>entries = [], cwd_mode = 493, above = [], umask = 18\<rparr>
       = (Inr (sha1_hexdigest (''- F '' @ sha1_hexdigest ''x'' @ '' ro'' @ [LF])),
          \<lparr>entries = [(''ro'', File 420 ''x'')], cwd_mode = 493,
            above = [Frame ''out'' 493 [] []], umask = 18\<rparr>)
   \<and> (420::int) AND 448 \<noteq> 256 AND 448
   \<and> UnpackTree (snd (PackTree (Dir 493 [(''a'', File 420 ''x'')]) [])) ''out''
        \<lparr>entries = [(''out'', Dir 493 [(''old'', File 420 ''o'')])], cwd_mode = 493, above = [],
          umask = 18\<rparr>
       = (Inr (sha1_hexdigest (''- F '' @ sha1_hexdigest ''x'' @ '' a'' @ [LF])),
          \<lparr>entries = [(''old'', File 420 ''o''), (''a'', File 420 ''x'')], cwd_mode = 493,
            above = [Frame ''out'' 493 [] []], umask = 18\<rparr>)"
proof -
  let ?sha = "sha1_hexdigest ''x''"
  have sl: "splitlines (CHR ''-'' # SP # CHR ''F'' # SP # ?sha @ [SP, CHR ''a'', LF, CHR ''b'', LF])
      = [''- F '' @ ?sha @ '' a'', ''b'']"
    using splitlines_from_skip [of ?sha "rev ''- F ''" "[SP, CHR ''a'', LF, CHR ''b'', LF]"]
    by (simp add: splitlines_def sha1_hexdigest_chars)
  have sp: "py_split 3 (CHR ''-'' # SP # CHR ''F'' # SP # ?sha @ [SP, CHR ''a''])
      = [''-'', ''F'', ?sha, ''a'']"
    using py_split_3 [of "''-''" "''F''" ?sha "''a''"]
    by (simp add: sha1_hexdigest_chars del: py_split.simps)
  have sp2: "py_split 3 ''b'' = [''b'']"
    by (simp add: py_split_no_space)
  have newline: "UnpackTree (snd (PackTree (Dir 493 [(''a'' @ [LF] @ ''b'', File 420 ''x'')]) [])) ''out''
        \<lparr>entries = [], cwd_mode = 493, above = [], umask = 18\<rparr>
       = (Inl (RuntimeError (InvalidDirectoryEntry ''b''
                 (''- F '' @ sha1_hexdigest ''x'' @ '' a'' @ [LF] @ ''b'' @ [LF]))),
          \<lparr>entries = [(''a'' @ [LF] @ ''b'', File 420 ''x'')], cwd_mode = 493,
            above = [Frame ''out'' 493 [] []], umask = 18\<rparr>)"
    by (simp add: PackTree_correct manifest_line_def S_IMODE_def path_kind_def
        UnpackTree_def MakeOneDir_def os_mkdir_Component os_chdir_Component down_def
        new_dir_mode_def Verifier_init_def Push_def OnEntry_def open_write_Component Pop_def
        sl sp sp2 del: py_split.simps One_nat_def add: py_split_op)
  have read_only: "UnpackTree (snd (PackTree (Dir 493 [(''ro'', File 256 ''x'')]) [])) ''out''
        \<lparr>entries = [], cwd_mode = 493, above = [], umask = 18\<rparr>
       = (Inr (sha1_hexdigest (''- F '' @ sha1_hexdigest ''x'' @ '' ro'' @ [LF])),
          \<lparr>entries = [(''ro'', File 420 ''x'')], cwd_mode = 493,
            above = [Frame ''out'' 493 [] []], umask = 18\<rparr>)"
    using UnpackTree_stream [of 493 "[(''ro'', File 256 ''x'')]" "''out''"
        "\<lparr>entries = [], cwd_mode = 493, above = [], umask = 18\<rparr>"
        "sha1_hexdigest (''- F '' @ sha1_hexdigest ''x'' @ '' ro'' @ [LF])" "[]"]
    by (simp add: PackTree_correct manifest_line_def S_IMODE_def path_kind_def is_exec_def
        new_dir_mode_def)
  have sl1: "splitlines (CHR ''-'' # SP # CHR ''F'' # SP # ?sha @ [SP, CHR ''a'', LF])
      = [''- F '' @ ?sha @ '' a'']"
    using splitlines_from_skip [of ?sha "rev ''- F ''" "[SP, CHR ''a'', LF]"]
    by (simp add: splitlines_def sha1_hexdigest_chars)
  have existing: "UnpackTree (snd (PackTree (Dir 493 [(''a'', File 420 ''x'')]) [])) ''out''
        \<lparr>entries = [(''out'', Dir 493 [(''old'', File 420 ''o'')])], cwd_mode = 493, above = [],
          umask = 18\<rparr>
       = (Inr (sha1_hexdigest (''- F '' @ sha1_hexdigest ''x'' @ '' a'' @ [LF])),
          \<lparr>entries = [(''old'', File 420 ''o''), (''a'', File 420 ''x'')], cwd_mode = 493,
            above = [Frame ''out'' 493 [] []], umask = 18\<rparr>)"
    by (simp add: PackTree_correct manifest_line_def S_IMODE_def path_kind_def
        UnpackTree_def MakeOneDir_def os_mkdir_Component os_chdir_Component down_def
        Verifier_init_def Push_def OnEntry_def open_write_Component Pop_def
        sl1 sp del: py_split.simps One_nat_def add: py_split_op)
  from newline read_only existing show ?thesis
    by (simp add: PackTree_correct manifest_line_def S_IMODE_def path_kind_def)
qed

text \<open>
  Claim C1 as amended: for every tree \<open>T\<close> of regular files, directories and links in
  which no name contains a newline, unpacking the stream that packing \<open>T\<close> has written,
  into a destination that does not exist or is an empty directory, succeeds, returns the
  root checksum that the packer reported, and builds a tree that is the same as \<open>T\<close>
  in what the format tracks: the same names, file contents, link targets and
  owner-executable flags of the regular files. It differs from \<open>T\<close> in what is not
  tracked: time stamps, owner and group, and every other permission bit, which the
  unpacker sets from the mask (\<open>unpacked_entries\<close>: \<^verbatim>\<open>0666 & ~umask\<close> for a file,
  and the three executable bits on top when the flag is set; \<^verbatim>\<open>0777 & ~umask\<close>
  and the inherited set-group-ID bit for a directory). The directory the unpacker was
  started in is unchanged but for the destination.

  The other conditions of \<open>representable\<close> hold in every file system (entry names are
  distinct path components, a link has a target); \<open>dir\<close> is the name of the destination
  in the working directory. The assumption \<open>no_carriage_return\<close> leaves the names with
  a carriage return out of the statement, which neither promises nor denies the round
  trip for them.
\<close>

theorem round_trip:
  assumes "representable (Dir p es)" and "no_carriage_return (Dir p es)"
    and "path_kind dir = Component" and "absent_or_empty fs dir"
  shows "\<exists>checksum n outf fs'.
           PackTree (Dir p es) [] = (Inr (checksum, n), outf)
         \<and> UnpackTree outf dir fs = (Inr checksum, fs')
         \<and> same_tracked (Dir p es) (Dir (cwd_mode fs') (entries fs'))
         \<and> entries fs' = unpacked_entries (umask fs) (cwd_mode fs') (children (by_name (Dir p es)))
         \<and> map_of (entries (up fs')) = (map_of (entries fs))(dir \<mapsto> Dir (cwd_mode fs') (entries fs'))
         \<and> cwd_mode (up fs') = cwd_mode fs \<and> above (up fs') = above fs \<and> umask fs' = umask fs
         \<and> cwd_mode fs' = (case map_of (entries fs) dir of
                              Some (Dir m es0) \<Rightarrow> m
                            | _ \<Rightarrow> new_dir_mode (umask fs) (cwd_mode fs))"
proof -
  from assms(1,2) have un: "unpackable (Dir p es)"
    by (simp only: unpackable_iff)
  from round_trip_lemma [OF un assms(3,4)] obtain checksum n body fs' where
    "PackTree (Dir p es) [] = (Inr (checksum, n), body @ [checksum])"
    "\<forall>t. UnpackTree (body @ [t]) dir fs = (Inr t, fs')"
    "same_tracked (Dir p es) (Dir (cwd_mode fs') (entries fs'))"
    "entries fs' = unpacked_entries (umask fs) (cwd_mode fs') (children (by_name (Dir p es)))"
    "map_of (entries (up fs')) = (map_of (entries fs))(dir \<mapsto> Dir (cwd_mode fs') (entries fs'))"
    "cwd_mode (up fs') = cwd_mode fs" "above (up fs') = above fs" "umask fs' = umask fs"
    "cwd_mode fs' = (case map_of (entries fs) dir of
                       Some (Dir m es0) \<Rightarrow> m
                     | _ \<Rightarrow> new_dir_mode (umask fs) (cwd_mode fs))"
    by blast
  then show ?thesis by blast
qed

theorem round_trip_witness:
  "representable (Dir 448 [(''run me'', File 493 ''#!''),
                          (''doc'', Dir 448 [(''a.txt'', File 384 ''hi'')]),
                          (''link'', Symlink ''doc/a.txt'')])
   \<and> no_carriage_return (Dir 448 [(''run me'', File 493 ''#!''),
                                  (''doc'', Dir 448 [(''a.txt'', File 384 ''hi'')]),
                                  (''link'', Symlink ''doc/a.txt'')])
   \<and> path_kind ''out'' = Component
   \<and> absent_or_empty \<lparr>entries = [(''out'', Dir 488 []), (''other'', File 420 ''o'')],
                        cwd_mode = 493, above = [], umask = 18\<rparr> ''out''
   \<and> (\<exists>checksum n outf fs'.
         PackTree (Dir 448 [(''run me'', File 493 ''#!''),
                            (''doc'', Dir 448 [(''a.txt'', File 384 ''hi'')]),
                            (''link'', Symlink ''doc/a.txt'')]) [] = (Inr (checksum, n), outf)
       \<and> UnpackTree outf ''out'' \<lparr>entries = [(''out'', Dir 488 []), (''other'', File 420 ''o'')],
                                    cwd_mode = 493, above = [], umask = 18\<rparr> = (Inr checksum, fs')
       \<and> same_tracked (Dir 448 [(''run me'', File 493 ''#!''),
                                 (''doc'', Dir 448 [(''a.txt'', File 384 ''hi'')]),
                                 (''link'', Symlink ''doc/a.txt'')])
                       (Dir (cwd_mode fs') (entries fs'))
       \<and> entries fs' = [(''doc'', Dir 493 [(''a.txt'', File 420 ''hi'')]),
                         (''link'', Symlink ''doc/a.txt''),
                         (''run me'', File 493 ''#!'')])"
proof -
  let ?es = "[(''run me'', File 493 ''#!''), (''doc'', Dir 448 [(''a.txt'', File 384 ''hi'')]),
              (''link'', Symlink ''doc/a.txt'')]"
  let ?fs = "\<lparr>entries = [(''out'', Dir 488 []), (''other'', File 420 ''o'')],
              cwd_mode = 493, above = [], umask = 18\<rparr>"
  have h1: "representable (Dir 448 ?es)" by (simp add: path_kind_def)
  have h2: "no_carriage_return (Dir 448 ?es)" by simp
  have h3: "path_kind ''out'' = Component" by (simp add: path_kind_def)
  have h4: "absent_or_empty ?fs ''out''" by (simp add: absent_or_empty_def)
  have srt: "sort [''run me'', ''doc'', ''link''] = [''doc'', ''link'', ''run me'']"
    by (simp add: less_eq_char_def less_char_def)
  from round_trip [OF h1 h2 h3 h4] obtain checksum n outf fs' where
    r: "PackTree (Dir 448 ?es) [] = (Inr (checksum, n), outf)"
       "UnpackTree outf ''out'' ?fs = (Inr checksum, fs')"
       "same_tracked (Dir 448 ?es) (Dir (cwd_mode fs') (entries fs'))"
       "entries fs' = unpacked_entries (umask ?fs) (cwd_mode fs') (children (by_name (Dir 448 ?es)))"
       "cwd_mode fs' = (case map_of (entries ?fs) ''out'' of
                          Some (Dir m es0) \<Rightarrow> m
                        | _ \<Rightarrow> new_dir_mode (umask ?fs) (cwd_mode ?fs))"
    by blast
  from r(4,5) have "entries fs' = [(''doc'', Dir 493 [(''a.txt'', File 420 ''hi'')]),
                         (''link'', Symlink ''doc/a.txt''), (''run me'', File 493 ''#!'')]"
    by (simp add: srt is_exec_def S_IMODE_def add_x_simps new_dir_mode_def)
  with r h1 h2 h3 h4 show ?thesis by blast
qed

text \<open>
  Claim C2 (corrected). The claim counts \<open>2N + 2\<close> blobs for a tree of \<open>N\<close> nodes, the
  root included. A directory is written as two pairs, one that opens and one that closes
  it, so the empty tree (\<open>N = 1\<close>) already has six blobs: the header, \<^verbatim>\<open>> .\<close> and
  its empty blob, \<^verbatim>\<open>< .\<close> and the manifest, and the trailer.
\<close>

theorem pack_blob_count_counterexample:
  "snd (PackTree (Dir 493 []) []) = [''dfo--'', ''> .'', [], ''< .'', [], sha1_hexdigest []]
   \<and> length (snd (PackTree (Dir 493 []) [])) \<noteq> 2 * count_nodes (Dir 493 []) + 2"
  by (simp add: PackTree_correct)

text \<open>
  Claim C2 as amended: for a tree of regular files, directories and symbolic links with
  \<open>N\<close> nodes of which \<open>D\<close> are directories, the root counted in both, the packer
  succeeds and writes exactly \<open>2N + 2D + 2\<close> blobs: the header, one pair for every
  file and link, two pairs for every directory, and the trailer. The node count it
  reports is \<open>N - 1\<close>.
\<close>

theorem pack_blob_count:
  assumes "packable (Dir p es)" and "distinct_names (Dir p es)"
  shows "\<exists>checksum outf.
           PackTree (Dir p es) [] = (Inr (checksum, count_nodes (Dir p es) - 1), outf)
         \<and> length outf = 2 * count_nodes (Dir p es) + 2 * count_dirs (Dir p es) + 2"
proof -
  let ?es = "walk es (sort (map fst es))"
  have c: "count_nodes (by_name (Dir p es)) = count_nodes (Dir p es)"
          "count_dirs (by_name (Dir p es)) = count_dirs (Dir p es)"
    using count_by_name [OF assms(2)] by simp_all
  have "packable (by_name (Dir p es))" using assms(1) by (rule packable_by_name)
  then have pk: "\<forall>e \<in> set ?es. packable (snd e)"
    by (simp add: by_name_Dir del: by_name.simps)
  have "length (entries_blobs ?es) = 2 * count_entries ?es + 2 * count_dir_entries ?es"
    using length_blobs(2) [OF pk] .
  with c show ?thesis
    by (simp add: PackTree_correct [OF assms(1)] by_name_Dir del: by_name.simps)
qed

theorem pack_blob_count_witness:
  "packable (Dir 493 [(''sub'', Dir 493 [(''f'', File 420 ''x'')]), (''l'', Symlink ''sub/f'')])
   \<and> distinct_names (Dir 493 [(''sub'', Dir 493 [(''f'', File 420 ''x'')]), (''l'', Symlink ''sub/f'')])
   \<and> count_nodes (Dir 493 [(''sub'', Dir 493 [(''f'', File 420 ''x'')]), (''l'', Symlink ''sub/f'')]) = 4
   \<and> count_dirs (Dir 493 [(''sub'', Dir 493 [(''f'', File 420 ''x'')]), (''l'', Symlink ''sub/f'')]) = 2
   \<and> length (snd (PackTree
        (Dir 493 [(''sub'', Dir 493 [(''f'', File 420 ''x'')]), (''l'', Symlink ''sub/f'')]) [])) = 14"
  using pack_blob_count [of 493 "[(''sub'', Dir 493 [(''f'', File 420 ''x'')]), (''l'', Symlink ''sub/f'')]"]
  by auto




text \<open>
  Claim C4 (corrected). The claim says that whenever the two lists differ the integrity
  error is raised. \<^verbatim>\<open>Pop\<close> compares the lists after its loop over the manifest
  lines, and the loop calls \<^verbatim>\<open>os.lstat\<close> and \<^verbatim>\<open>os.chmod\<close> for every \<^verbatim>\<open>x\<close>
  line: when the manifest lists an executable entry that was never streamed, so that the
  lists differ in length, \<^verbatim>\<open>os.lstat\<close> raises \<^verbatim>\<open>OSError\<close> (\<^verbatim>\<open>ENOENT\<close>) and the
  comparison is not reached.
\<close>

theorem Pop_compares_exactly_counterexample:
  "map manifest_entry (splitlines (''- F 0a a'' @ [LF] @ ''x F 0b b'' @ [LF]))
     = [(''a'', ''0a''), (''b'', ''0b'')]
   \<and> [(''a'', ''0a''), (''b'', ''0b'')] \<noteq> [(''a'', ''0a'')]
   \<and> Pop \<lparr>current = Some [(''a'', ''0a'')], stack = [[(''a'', ''0a'')]]\<rparr>
       (''- F 0a a'' @ [LF] @ ''x F 0b b'' @ [LF])
       \<lparr>entries = [(''a'', File 420 ''A'')], cwd_mode = 493, above = [], umask = 18\<rparr>
     = (Inl (OSError ENOENT),
        \<lparr>entries = [(''a'', File 420 ''A'')], cwd_mode = 493, above = [], umask = 18\<rparr>)"
  by (simp add: Pop_def manifest_entry_def splitlines_def numeral_3_eq_3 os_lstat_Component
      path_kind_def)

text \<open>
  Claim C4 as amended. \<^verbatim>\<open>Pop\<close> returns only when the list collected from the streamed
  children is exactly the list of \<open>(name, checksum)\<close> pairs of the manifest lines, in the
  order of the lines. When the loop over the manifest lines has run through (every line
  has its four fields and the flag \<^verbatim>\<open>x\<close> or \<^verbatim>\<open>-\<close>, and \<^verbatim>\<open>os.lstat\<close> and
  \<^verbatim>\<open>os.chmod\<close> have succeeded for every \<^verbatim>\<open>x\<close> line) and the two lists differ in any
  way, \<^verbatim>\<open>RuntimeError('Stream integrity error')\<close> is raised; in particular for a
  manifest with the right entries in the wrong order (the witness). When the loop fails,
  \<^verbatim>\<open>Pop\<close> raises the error of the loop, which is another one. The loop runs through
  without a call when no line has the flag \<^verbatim>\<open>x\<close>. Here a directory is open, that is,
  \<^verbatim>\<open>current\<close> is a list.
\<close>

theorem Pop_compares_exactly:
  "(Pop v dir_obj fs = (Inr v', fs') \<longrightarrow>
      current v = Some (map manifest_entry (splitlines dir_obj)))
   \<and> (Pop_lines dir_obj (splitlines dir_obj) [] fs = (Inr expected, fs1)
        \<and> current v = Some actual \<and> actual \<noteq> map manifest_entry (splitlines dir_obj) \<longrightarrow>
      Pop v dir_obj fs = (Inl (RuntimeError StreamIntegrityError), fs1))
   \<and> (Pop_lines dir_obj (splitlines dir_obj) [] fs = (Inl e, fs1) \<longrightarrow>
      Pop v dir_obj fs = (Inl e, fs1) \<and> e \<noteq> RuntimeError StreamIntegrityError)
   \<and> ((\<forall>line \<in> set (splitlines dir_obj). \<exists>type checksum name.
          py_split 3 line = [''-'', type, checksum, name])
        \<and> current v = Some actual \<and> actual \<noteq> map manifest_entry (splitlines dir_obj) \<longrightarrow>
      Pop v dir_obj fs = (Inl (RuntimeError StreamIntegrityError), fs))"
proof (intro conjI impI)
  assume "Pop v dir_obj fs = (Inr v', fs')"
  then obtain expected where
    "Pop_lines dir_obj (splitlines dir_obj) [] fs = (Inr expected, fs')" "current v = Some expected"
    by (auto simp: Pop_def split: prod.splits sum.splits option.splits if_splits)
  with Pop_lines_calls [OF this(1)]
  show "current v = Some (map manifest_entry (splitlines dir_obj))" by simp
next
  assume a: "Pop_lines dir_obj (splitlines dir_obj) [] fs = (Inr expected, fs1)
        \<and> current v = Some actual \<and> actual \<noteq> map manifest_entry (splitlines dir_obj)"
  with Pop_lines_calls [of dir_obj "splitlines dir_obj" "[]" fs expected fs1]
  have "expected \<noteq> actual" by auto
  with a show "Pop v dir_obj fs = (Inl (RuntimeError StreamIntegrityError), fs1)"
    by (simp add: Pop_def)
next
  assume "Pop_lines dir_obj (splitlines dir_obj) [] fs = (Inl e, fs1)"
  then show "Pop v dir_obj fs = (Inl e, fs1)" by (rule Pop_loop_error)
next
  assume "Pop_lines dir_obj (splitlines dir_obj) [] fs = (Inl e, fs1)"
  then show "e \<noteq> RuntimeError StreamIntegrityError" by (rule Pop_lines_error)
next
  assume a: "(\<forall>line \<in> set (splitlines dir_obj). \<exists>type checksum name.
          py_split 3 line = [''-'', type, checksum, name])
        \<and> current v = Some actual \<and> actual \<noteq> map manifest_entry (splitlines dir_obj)"
  then have "Pop_lines dir_obj (splitlines dir_obj) [] fs
      = (Inr ([] @ map manifest_entry (splitlines dir_obj)), fs)"
    by (intro Pop_lines_dash) simp
  with a show "Pop v dir_obj fs = (Inl (RuntimeError StreamIntegrityError), fs)"
    by (auto simp: Pop_def)
qed

theorem Pop_compares_exactly_witness:
  "set (map manifest_entry (splitlines (''- F 0b b'' @ [LF] @ ''- F 0a a'' @ [LF])))
     = set [(''a'', ''0a''), (''b'', ''0b'')]
   \<and> Pop \<lparr>current = Some [(''a'', ''0a''), (''b'', ''0b'')],
           stack = [[(''a'', ''0a''), (''b'', ''0b'')]]\<rparr>
       (''- F 0b b'' @ [LF] @ ''- F 0a a'' @ [LF])
       \<lparr>entries = [(''a'', File 420 ''A''), (''b'', File 420 ''B'')],
         cwd_mode = 493, above = [], umask = 18\<rparr>
     = (Inl (RuntimeError StreamIntegrityError),
        \<lparr>entries = [(''a'', File 420 ''A''), (''b'', File 420 ''B'')],
          cwd_mode = 493, above = [], umask = 18\<rparr>)"
proof -
  let ?v = "\<lparr>current = Some [(''a'', ''0a''), (''b'', ''0b'')],
             stack = [[(''a'', ''0a''), (''b'', ''0b'')]]\<rparr>"
  let ?m = "''- F 0b b'' @ [LF] @ ''- F 0a a'' @ [LF]"
  let ?fs = "\<lparr>entries = [(''a'', File 420 ''A''), (''b'', File 420 ''B'')],
              cwd_mode = 493, above = [], umask = 18\<rparr>"
  have me: "map manifest_entry (splitlines ?m) = [(''b'', ''0b''), (''a'', ''0a'')]"
    by (simp add: manifest_entry_def splitlines_def numeral_3_eq_3)
  have lines: "Pop_lines ?m (splitlines ?m) [] ?fs = (Inr [(''b'', ''0b''), (''a'', ''0a'')], ?fs)"
    by (simp add: splitlines_def numeral_3_eq_3)
  note differ = Pop_compares_exactly [of ?v ?m ?fs _ _ "[(''b'', ''0b''), (''a'', ''0a'')]" ?fs
      "[(''a'', ''0a''), (''b'', ''0b'')]", THEN conjunct2, THEN conjunct1, rule_format]
  have "Pop ?v ?m ?fs = (Inl (RuntimeError StreamIntegrityError), ?fs)"
  proof (rule differ, intro conjI)
    show "Pop_lines ?m (splitlines ?m) [] ?fs = (Inr [(''b'', ''0b''), (''a'', ''0a'')], ?fs)"
      by (rule lines)
    show "current ?v = Some [(''a'', ''0a''), (''b'', ''0b'')]" by simp
    show "[(''a'', ''0a''), (''b'', ''0b'')] \<noteq> map manifest_entry (splitlines ?m)"
      by (simp only: me) simp
  qed
  with me show ?thesis by (simp only: me) auto
qed

text \<open>
  Claim C5. The unpacker reads the trailer after the loop has verified every directory,
  and returns it without comparing it with anything: when the last blob of the stream
  that the packer wrote for a tree is replaced by any blob \<open>t\<close>, unpacking builds the
  same file system as for the genuine stream, the tree being the same as the packed one
  in what is tracked, and returns \<open>t\<close>.
\<close>

theorem unpack_corrupt_trailer:
  assumes "unpackable (Dir p es)"
    and "path_kind dir = Component" and "dir \<notin> fst ` set (entries fs)"
  shows "\<exists>checksum n body fs'.
           PackTree (Dir p es) [] = (Inr (checksum, n), body @ [checksum])
         \<and> UnpackTree (body @ [checksum]) dir fs = (Inr checksum, fs')
         \<and> (\<forall>t. UnpackTree (body @ [t]) dir fs = (Inr t, fs'))
         \<and> same_tracked (Dir p es) (Dir (cwd_mode fs') (entries fs'))"
proof -
  from assms(3) have "absent_or_empty fs dir"
    by (simp add: absent_or_empty_def map_of_fresh)
  from round_trip_lemma [OF assms(1,2) this] obtain checksum n body fs' where
    "PackTree (Dir p es) [] = (Inr (checksum, n), body @ [checksum])"
    "\<forall>t. UnpackTree (body @ [t]) dir fs = (Inr t, fs')"
    "same_tracked (Dir p es) (Dir (cwd_mode fs') (entries fs'))"
    by blast
  then show ?thesis by blast
qed

theorem unpack_corrupt_trailer_witness:
  "unpackable (Dir 493 [(''a.txt'', File 420 ''hi'')])
   \<and> path_kind ''out'' = Component
   \<and> ''out'' \<notin> fst ` set (entries \<lparr>entries = [], cwd_mode = 493, above = [], umask = 18\<rparr>)
   \<and> snd (PackTree (Dir 493 [(''a.txt'', File 420 ''hi'')]) [])
       = [''dfo--'', ''> .'', [], ''F a.txt'', ''hi'', ''< .'',
          ''- F '' @ sha1_hexdigest ''hi'' @ '' a.txt'' @ [LF],
          sha1_hexdigest (''- F '' @ sha1_hexdigest ''hi'' @ '' a.txt'' @ [LF])]
   \<and> UnpackTree [''dfo--'', ''> .'', [], ''F a.txt'', ''hi'', ''< .'',
                 ''- F '' @ sha1_hexdigest ''hi'' @ '' a.txt'' @ [LF], ''corrupted'']
        ''out'' \<lparr>entries = [], cwd_mode = 493, above = [], umask = 18\<rparr>
       = (Inr ''corrupted'',
          \<lparr>entries = [(''a.txt'', File 420 ''hi'')], cwd_mode = 493,
            above = [Frame ''out'' 493 [] []], umask = 18\<rparr>)"
proof -
  let ?es = "[(''a.txt'', File 420 ''hi'')]"
  let ?fs = "\<lparr>entries = [], cwd_mode = 493, above = [], umask = 18\<rparr>"
  have h1: "unpackable (Dir 493 ?es)" by (simp add: path_kind_def)
  have h2: "path_kind ''out'' = Component" by (simp add: path_kind_def)
  have h3: "''out'' \<notin> fst ` set (entries ?fs)" by simp
  have pack: "PackTree (Dir 493 ?es) [] =
      (Inr (sha1_hexdigest (''- F '' @ sha1_hexdigest ''hi'' @ '' a.txt'' @ [LF]), 1),
       [''dfo--'', ''> .'', [], ''F a.txt'', ''hi'', ''< .'',
        ''- F '' @ sha1_hexdigest ''hi'' @ '' a.txt'' @ [LF]]
       @ [sha1_hexdigest (''- F '' @ sha1_hexdigest ''hi'' @ '' a.txt'' @ [LF])])"
    by (simp add: PackTree_correct manifest_line_def S_IMODE_def)
  from unpack_corrupt_trailer [OF h1 h2 h3] obtain checksum n body fs' where
    r: "PackTree (Dir 493 ?es) [] = (Inr (checksum, n), body @ [checksum])"
       "UnpackTree (body @ [checksum]) ''out'' ?fs = (Inr checksum, fs')"
       "\<forall>t. UnpackTree (body @ [t]) ''out'' ?fs = (Inr t, fs')"
    by blast
  from r(1) pack have body: "body = [''dfo--'', ''> .'', [], ''F a.txt'', ''hi'', ''< .'',
        ''- F '' @ sha1_hexdigest ''hi'' @ '' a.txt'' @ [LF]]"
    by simp
  have "UnpackTree (body @ [''corrupted'']) ''out'' ?fs
      = (Inr ''corrupted'', \<lparr>entries = [(''a.txt'', File 420 ''hi'')], cwd_mode = 493,
            above = [Frame ''out'' 493 [] []], umask = 18\<rparr>)"
    using UnpackTree_stream [OF h1 h2 h3, of "''corrupted''" "[]"]
    by (simp add: body manifest_line_def S_IMODE_def is_exec_def new_dir_mode_def)
  with h1 h2 h3 pack show ?thesis
    by (simp add: body)
qed

text \<open>
  Claim C6. Packing a directory whose only entry is the regular file \<^verbatim>\<open>a.txt\<close> with
  contents \<^verbatim>\<open>hi\n\<close> and without the owner-executable bit writes the root manifest
  \<^verbatim>\<open>- F <sha1 of "hi\n"> a.txt\n\<close> (the data blob of the closing record of the
  root), and the root checksum, returned and written as the trailer, is the digest of
  exactly that line.
\<close>

theorem pack_single_file:
  assumes "p AND S_IXUSR = 0"
  shows "PackTree (Dir m [(''a.txt'', File p (''hi'' @ [LF]))]) [] =
     (Inr (sha1_hexdigest (''- F '' @ sha1_hexdigest (''hi'' @ [LF]) @ '' a.txt'' @ [LF]), 1),
      [''dfo--'', ''> .'', [], ''F a.txt'', ''hi'' @ [LF], ''< .'',
       ''- F '' @ sha1_hexdigest (''hi'' @ [LF]) @ '' a.txt'' @ [LF],
       sha1_hexdigest (''- F '' @ sha1_hexdigest (''hi'' @ [LF]) @ '' a.txt'' @ [LF])])"
proof -
  have "((32768 OR (p AND 4095)) AND 4095) AND (64::int) = p AND 64"
    by (simp add: bit.conj_disj_distrib2 and.assoc)
  with assms have x: "((32768 OR (p AND 4095)) AND 4095) AND (64::int) = 0" by simp
  show ?thesis
    by (simp add: PackTree_correct manifest_line_def S_IMODE_def x)
qed

theorem pack_single_file_witness:
  "(420::int) AND S_IXUSR = 0
   \<and> snd (PackTree (Dir 493 [(''a.txt'', File 420 (''hi'' @ [LF]))]) []) ! 6
       = ''- F '' @ sha1_hexdigest (''hi'' @ [LF]) @ '' a.txt'' @ [LF]
   \<and> fst (PackTree (Dir 493 [(''a.txt'', File 420 (''hi'' @ [LF]))]) [])
       = Inr (sha1_hexdigest (''- F '' @ sha1_hexdigest (''hi'' @ [LF]) @ '' a.txt'' @ [LF]), 1)"
  using pack_single_file [of 420 493] by simp

text \<open>
  Claim C7. The packer is a function of the tree, and the order in which
  \<^verbatim>\<open>os.listdir\<close> happens to return the entries of a directory does not enter its
  result: two runs on the same tree, whatever the two listings, return the same result
  and write the same stream, because \<^verbatim>\<open>_PackTree\<close> walks
  \<^verbatim>\<open>sorted(os.listdir(...))\<close>.
\<close>

theorem pack_deterministic:
  "same_tree d d' \<Longrightarrow> PackTree d outf = PackTree d' outf"
  using pack_same_tree(1) [of d d'] by (simp add: PackTree_def del: PackTree_rec.simps)

theorem pack_deterministic_witness:
  "same_tree
     (Dir 493 [(''b'', File 420 ''B''),
               (''a'', Dir 493 [(''y'', Symlink ''../b''), (''x'', File 493 ''X'')])])
     (Dir 493 [(''a'', Dir 493 [(''x'', File 493 ''X''), (''y'', Symlink ''../b'')]),
               (''b'', File 420 ''B'')])
   \<and> PackTree
       (Dir 493 [(''b'', File 420 ''B''),
                 (''a'', Dir 493 [(''y'', Symlink ''../b''), (''x'', File 493 ''X'')])]) []
     = PackTree
       (Dir 493 [(''a'', Dir 493 [(''x'', File 493 ''X''), (''y'', Symlink ''../b'')]),
                 (''b'', File 420 ''B'')]) []"
proof -
  have s: "same_tree
     (Dir 493 [(''b'', File 420 ''B''),
               (''a'', Dir 493 [(''y'', Symlink ''../b''), (''x'', File 493 ''X'')])])
     (Dir 493 [(''a'', Dir 493 [(''x'', File 493 ''X''), (''y'', Symlink ''../b'')]),
               (''b'', File 420 ''B'')])"
    by (auto intro!: same_tree.intros)
  from s pack_deterministic [OF s] show ?thesis by simp
qed

text \<open>
  Claim C8. When the unpacker reads an op record without a space, such as
  \<^verbatim>\<open>Fname\<close>, it raises \<^verbatim>\<open>RuntimeError('Invalid op record ...')\<close> (the stream
  format error), and the file system is as it was when the record was read: nothing has
  been written for that record.
\<close>

theorem unpack_loop_op_without_space:
  "SP \<notin> set op \<Longrightarrow>
   unpack_loop v level (op # in_file) fs = (Inl (RuntimeError (InvalidOpRecord op)), fs)"
  by (simp add: py_split_no_space)

theorem unpack_loop_op_without_space_witness:
  "SP \<notin> set ''Fname'' \<and>
   UnpackTree [''dfo--'', ''Fname'', ''data''] ''out''
     \<lparr>entries = [], cwd_mode = 493, above = [], umask = 18\<rparr>
   = (Inl (RuntimeError (InvalidOpRecord ''Fname'')),
      \<lparr>entries = [], cwd_mode = 493, above = [Frame ''out'' 493 [] []], umask = 18\<rparr>)"
  using unpack_loop_op_without_space [of "''Fname''" Verifier_init 0 "[''data'']"
      "\<lparr>entries = [], cwd_mode = 493, above = [Frame ''out'' 493 [] []], umask = 18\<rparr>"]
  by (simp add: UnpackTree_def MakeOneDir_def os_mkdir_Component os_chdir_Component down_def
      new_dir_mode_def path_kind_def)

text \<open>
  Claim C9. An \<^verbatim>\<open>F\<close> record whose name is that of a regular file of the current
  directory replaces the contents of that file by the data blob: \<^verbatim>\<open>open(name, 'w')\<close>
  raises nothing, the file keeps its place and its permission bits, and the loop goes on
  with the entry recorded in the verifier. For the same name \<^verbatim>\<open>os.mkdir\<close> and
  \<^verbatim>\<open>os.symlink\<close> raise \<^verbatim>\<open>EEXIST\<close>, which the unpacker swallows; for a file
  nothing notices that the name is taken.
\<close>

theorem unpack_file_record_overwrites:
  assumes "path_kind name = Component"
      and "map_of (entries fs) name = Some (File p old)"
  shows "open_write name contents fs
           = (Inr (), fs\<lparr>entries := AList.update name (File p contents) (entries fs)\<rparr>)
     \<and> os_mkdir name fs = (Inl (OSError EEXIST), fs)
     \<and> (src \<noteq> [] \<and> NUL \<notin> set src \<longrightarrow> os_symlink src name fs = (Inl (OSError EEXIST), fs))
     \<and> map_of (AList.update name (File p contents) (entries fs))
           = (map_of (entries fs))(name \<mapsto> File p contents)
     \<and> map fst (AList.update name (File p contents) (entries fs)) = map fst (entries fs)
     \<and> unpack_loop v level ((''F '' @ name) # contents # in_file) fs
           = (case OnEntry v name (sha1_hexdigest contents) of
                Inl e \<Rightarrow> (Inl e, fs\<lparr>entries := AList.update name (File p contents) (entries fs)\<rparr>)
              | Inr v' \<Rightarrow>
                  unpack_loop v' level in_file
                    (fs\<lparr>entries := AList.update name (File p contents) (entries fs)\<rparr>))"
proof -
  have sp: "py_split 1 (CHR ''F'' # SP # name) = [''F'', name]"
    using py_split_1 [of "''F''" name] by simp
  have ow: "open_write name contents fs
           = (Inr (), fs\<lparr>entries := AList.update name (File p contents) (entries fs)\<rparr>)"
    using assms by (simp add: open_write_Component)
  have ex: "os_mkdir name fs = (Inl (OSError EEXIST), fs)"
    "src \<noteq> [] \<and> NUL \<notin> set src \<longrightarrow> os_symlink src name fs = (Inl (OSError EEXIST), fs)"
    using assms by (simp_all add: os_mkdir_Component os_symlink_Component)
  show ?thesis
    using assms(2)
    by (simp add: ow ex sp update_conv' map_fst_update del: py_split.simps One_nat_def
        split: sum.splits)
qed

theorem unpack_file_record_overwrites_witness:
  "path_kind ''a.txt'' = Component
   \<and> map_of [(''a.txt'', File 384 ''old contents''), (''b'', Symlink ''a.txt'')] ''a.txt''
       = Some (File 384 ''old contents'')
   \<and> unpack_loop (Push Verifier_init) 1 [''F a.txt'', ''new'']
       \<lparr>entries = [(''a.txt'', File 384 ''old contents''), (''b'', Symlink ''a.txt'')],
         cwd_mode = 493, above = [], umask = 18\<rparr>
     = (Inr [], \<lparr>entries = [(''a.txt'', File 384 ''new''), (''b'', Symlink ''a.txt'')],
         cwd_mode = 493, above = [], umask = 18\<rparr>)"
  using unpack_file_record_overwrites [of "''a.txt''"
      "\<lparr>entries = [(''a.txt'', File 384 ''old contents''), (''b'', Symlink ''a.txt'')],
        cwd_mode = 493, above = [], umask = 18\<rparr>" 384 "''old contents''" "''new''" "''t''"
      "Push Verifier_init" 1 "[]"]
  by (simp add: path_kind_def OnEntry_def Push_def Verifier_init_def)

text \<open>
  Claim C10. \<^verbatim>\<open>Pop\<close> is not atomic: when it raises
  \<^verbatim>\<open>RuntimeError('Stream integrity error')\<close>, the whole manifest loop has run before
  the comparison, and the file system it leaves behind is the one after the calls
  \<^verbatim>\<open>os.lstat\<close> and \<^verbatim>\<open>os.chmod\<close> for every \<^verbatim>\<open>x\<close> line of the manifest, all of
  which have succeeded. When the names of these lines are single names and not those of
  symbolic links, every one of them is the name of an entry, which has its executable
  bits set. In the witness the mode of the file has changed from \<^verbatim>\<open>0644\<close> to
  \<^verbatim>\<open>0755\<close> although the pop failed.
\<close>

theorem Pop_integrity_error_after_chmod:
  assumes "Pop v dir_obj fs = (Inl (RuntimeError StreamIntegrityError), fs')"
  shows "Pop_lines dir_obj (splitlines dir_obj) [] fs
           = (Inr (map manifest_entry (splitlines dir_obj)), fs')
     \<and> exec_chmods (x_names (splitlines dir_obj)) fs = (Inr (), fs')
     \<and> (plain_names fs (x_names (splitlines dir_obj)) \<longrightarrow>
          (\<forall>n. map_of (entries fs') n =
                 (if n \<in> set (x_names (splitlines dir_obj))
                  then map_option add_x (map_of (entries fs) n)
                  else map_of (entries fs) n))
        \<and> (\<forall>n \<in> set (x_names (splitlines dir_obj)). \<exists>nd. map_of (entries fs) n = Some nd))"
proof -
  from assms obtain expected
    where pl: "Pop_lines dir_obj (splitlines dir_obj) [] fs = (Inr expected, fs')"
    using Pop_lines_error [of dir_obj "splitlines dir_obj" "[]" fs]
    by (auto simp: Pop_def split: prod.splits sum.splits option.splits if_splits)
  from Pop_lines_calls [OF pl] have calls: "expected = map manifest_entry (splitlines dir_obj)"
    "exec_chmods (x_names (splitlines dir_obj)) fs = (Inr (), fs')"
    by simp_all
  from exec_chmods_plain [OF calls(2)] calls pl show ?thesis by simp
qed

theorem Pop_integrity_error_after_chmod_witness:
  "Pop \<lparr>current = Some [(''run'', ''0a'')], stack = [[(''run'', ''0a'')]]\<rparr>
       (''x F ff run'' @ [LF])
       \<lparr>entries = [(''run'', File 420 ''#!'')], cwd_mode = 493, above = [], umask = 18\<rparr>
     = (Inl (RuntimeError StreamIntegrityError),
        \<lparr>entries = [(''run'', File 493 ''#!'')], cwd_mode = 493, above = [], umask = 18\<rparr>)
   \<and> plain_names \<lparr>entries = [(''run'', File 420 ''#!'')], cwd_mode = 493, above = [], umask = 18\<rparr>
        (x_names (splitlines (''x F ff run'' @ [LF])))
   \<and> map_of [(''run'', File 493 ''#!'')] ''run''
       = map_option add_x (map_of [(''run'', File 420 ''#!'')] ''run'')
   \<and> File 493 ''#!'' \<noteq> File 420 ''#!''"
proof -
  let ?v = "\<lparr>current = Some [(''run'', ''0a'')], stack = [[(''run'', ''0a'')]]\<rparr>"
  let ?m = "''x F ff run'' @ [LF]"
  let ?fs = "\<lparr>entries = [(''run'', File 420 ''#!'')], cwd_mode = 493, above = [], umask = 18\<rparr>"
  let ?fs' = "\<lparr>entries = [(''run'', File 493 ''#!'')], cwd_mode = 493, above = [], umask = 18\<rparr>"
  have err: "Pop ?v ?m ?fs = (Inl (RuntimeError StreamIntegrityError), ?fs')"
    by (simp add: Pop_def splitlines_def numeral_3_eq_3 os_lstat_Component os_chmod_Component
        path_kind_def)
  have xs: "x_names (splitlines ?m) = [''run'']"
    by (simp add: x_names_def splitlines_def numeral_3_eq_3)
  have pl: "plain_names ?fs (x_names (splitlines ?m))"
    unfolding xs by (simp add: plain_names_def path_kind_def)
  note eff = Pop_integrity_error_after_chmod [OF err, THEN conjunct2, THEN conjunct2,
      rule_format, OF pl, THEN conjunct1, unfolded xs]
  from eff [THEN spec, of "''run''"] err pl show ?thesis
    by (simp add: add_x_simps)
qed

end
